theory Spec2Isabelle
  imports Main "HOL-Library.AList"
begin

section \<open>Data model of the idb-next adapter\<close>

text \<open>
  The two source files are \<^verbatim>\<open>src/adapters/idb-next/bulkDocs.js\<close> and
  \<^verbatim>\<open>src/adapters/idb-next/getAttachment.js\<close>. JavaScript objects become records,
  a property that may be absent (\<^verbatim>\<open>undefined\<close>) becomes an \<open>option\<close>, objects used
  as dictionaries become maps (\<open>revs\<close>, the document store, \<open>oldDocs\<close>) or association
  lists where the code iterates over the keys (\<open>_attachments\<close>, whose keys are
  distinct). Property names of \<^verbatim>\<open>Object.prototype\<close> are not modelled as keys of a
  dictionary. An exception is a value of the result type. Where the code assigns to an
  object that another variable also refers to, the model returns that object as well.
\<close>

subsection \<open>Errors\<close>

text \<open>
  \<^verbatim>\<open>createError(REV_CONFLICT)\<close>, \<^verbatim>\<open>createError(MISSING_DOC, 'deleted')\<close> and
  \<^verbatim>\<open>createError(BAD_ARG, '...')\<close>: an error constant with an optional reason. Every
  such value has a truthy \<^verbatim>\<open>.error\<close> property. \<open>OTHER\<close> stands for the errors of the
  document parser.
\<close>

datatype errname = REV_CONFLICT | MISSING_DOC | BAD_ARG | OTHER string

datatype error = PouchError errname "string option"

definition createError :: "errname \<Rightarrow> string option \<Rightarrow> error" where
  "createError e r = PouchError e r"

subsection \<open>Revision trees\<close>

text \<open>
  A tree node is the JavaScript triple \<^verbatim>\<open>[id, {status: ...}, children]\<close>; a revision
  tree is a list of paths \<^verbatim>\<open>{pos: ..., ids: node}\<close>.
\<close>

datatype node = Node (node_id: string) (node_status: string) (node_children: "node list")

record path =
  pos :: nat
  ids :: node

subsection \<open>Attachments and document bodies\<close>

text \<open>
  \<open>bin\<close> is what \<^verbatim>\<open>parseBase64\<close> returns: the decoded binary string, or the object
  \<^verbatim>\<open>{error: ...}\<close>. The payload of an attachment is a string (\<^verbatim>\<open>typeof data === 'string'\<close>)
  or a binary object made by \<^verbatim>\<open>binStringToBlobOrBuffer\<close>.
\<close>

datatype bin = BinString string | BinError error

datatype payload = DataString string | DataBlob string

record attachment =
  stub :: bool
  att_data :: "payload option"
  content_type :: "string option"
  att_length :: "nat option"
  digest :: "string option"
  att_name :: "string option"

record body =
  b_id :: "string option"
  b_rev :: "string option"
  b_attachments :: "(string \<times> attachment) list option"
  b_fields :: string

subsection \<open>Document records\<close>

record revinfo =
  data :: body
  rev_deleted :: bool

record doc =
  doc_id :: string
  doc_rev :: string
  rev_tree :: "path list"
  revs :: "string \<rightharpoonup> revinfo"
  deleted :: "nat option"
  doc_data :: "body option"
  doc_seq :: "nat option"
  stemmedRevs :: "string list option"
  attachments :: "(string \<times> attachment) list option"


text \<open>
  \<open>deleted\<close> is the indexable 0/1 flag that \<^verbatim>\<open>write\<close> sets; \<open>truthy\<close> is JavaScript's
  truthiness of such a property (\<^verbatim>\<open>undefined\<close> and \<open>0\<close> are falsy).
\<close>

definition truthy :: "nat option \<Rightarrow> bool" where
  "truthy x = (case x of None \<Rightarrow> False | Some n \<Rightarrow> n \<noteq> 0)"

subsection \<open>What the parser and the merger return\<close>

record metadata =
  md_id :: string
  md_rev :: string
  md_rev_tree :: "path list"
  md_revs :: "(string \<rightharpoonup> revinfo) option"
  md_deleted :: bool

record parsed =
  p_metadata :: metadata
  p_data :: body

record merged =
  m_tree :: "path list"
  m_stemmedRevs :: "string list"
  m_conflicts :: string

subsection \<open>Imported functions\<close>

text \<open>
  The functions that \<^verbatim>\<open>bulkDocs.js\<close> imports are parameters of the model, and
  functions of their arguments. \<open>parseDoc\<close> returns \<open>Inl\<close> for an error it returns
  or throws (the error has a truthy \<^verbatim>\<open>.error\<close>); \<open>merge\<close> receives
  \<^verbatim>\<open>doc.rev_tree[0]\<close>, which is \<^verbatim>\<open>undefined\<close> (\<open>None\<close>) for an empty tree;
  \<open>atob\<close> is \<open>None\<close> where the browser's function throws; \<open>md5\<close> is \<open>None\<close>
  where its promise rejects and \<open>binStringToBlobOrBuffer\<close> is \<open>None\<close> where it
  throws.

  Modelled from the spec: the selector \<^verbatim>\<open>calculateWinningRev\<close>
  (\<^verbatim>\<open>deps/merge/winningRev\<close>, not among the source files) has the contract
  \<^verbatim>\<open>selectWinner(revTree) -> revisionId\<close>, "pure and depend[ing] only on tree
  contents"; the parameter is therefore applied to \<^verbatim>\<open>doc.rev_tree\<close> where the code
  writes \<^verbatim>\<open>calculateWinningRev(doc)\<close>.
\<close>

record deps =
  parseDoc :: "body \<Rightarrow> bool \<Rightarrow> error + parsed"
  merge :: "path list \<Rightarrow> path option \<Rightarrow> nat \<Rightarrow> merged"
  calculateWinningRev :: "path list \<Rightarrow> string"
  atob :: "string \<Rightarrow> string option"
  md5 :: "bin \<Rightarrow> string option"
  binStringToBlobOrBuffer :: "bin \<Rightarrow> string option \<Rightarrow> string option"

record opts =
  new_edits :: bool
  was_delete :: "bool option"

record metaData =
  meta_name :: string
  meta_seq :: nat
  meta_revsLimit :: "nat option"

section \<open>bulkDocs.js\<close>

subsection \<open>Helpers\<close>

text \<open>\<^verbatim>\<open>var revsLimit = api.metaData.revsLimit || 1000;\<close>\<close>

definition revsLimit :: "metaData \<Rightarrow> nat" where
  "revsLimit m = (case meta_revsLimit m of None \<Rightarrow> 1000 | Some n \<Rightarrow> if n = 0 then 1000 else n)"

text \<open>
  \<^verbatim>\<open>rootIsMissing(doc)\<close> reads \<^verbatim>\<open>doc.rev_tree[0].ids[1].status\<close>; it throws a
  \<^verbatim>\<open>TypeError\<close> (\<open>None\<close>) when the tree is empty.
\<close>

definition first_path :: "path list \<Rightarrow> path option" where
  "first_path t = (case t of [] \<Rightarrow> None | p # _ \<Rightarrow> Some p)"

definition rootIsMissing :: "doc \<Rightarrow> bool option" where
  "rootIsMissing d =
     (case first_path (rev_tree d) of
        None \<Rightarrow> None
      | Some p \<Rightarrow> Some (node_status (ids p) = ''missing''))"

definition parseBase64 :: "deps \<Rightarrow> string \<Rightarrow> bin" where
  "parseBase64 E s =
     (case atob E s of
        Some b \<Rightarrow> BinString b
      | None \<Rightarrow> BinError (createError BAD_ARG (Some ''Attachment is not a valid base64 string'')))"

definition convertDocFormat :: "parsed \<Rightarrow> doc" where
  "convertDocFormat p =
     (let m = p_metadata p in
      \<lparr> doc_id = md_id m,
        doc_rev = md_rev m,
        rev_tree = md_rev_tree m,
        revs = (case md_revs m of None \<Rightarrow> Map.empty | Some r \<Rightarrow> r)
                 (md_rev m \<mapsto> \<lparr> data = p_data p, rev_deleted = md_deleted m \<rparr>),
        deleted = None,
        doc_data = None,
        doc_seq = None,
        stemmedRevs = None,
        attachments = None \<rparr>)"

subsection \<open>Attachment pre-processing\<close>

text \<open>
  \<^verbatim>\<open>preProcessAttachment\<close> resolves with the attachment, or the pre-processing of the
  batch fails (\<open>None\<close>): the function returns \<^verbatim>\<open>undefined\<close> for a payload that is
  neither a stub nor a string (the \<^verbatim>\<open>then\<close> handler of
  \<^verbatim>\<open>preProcessAttachments\<close> throws on it), or an imported function fails. The result of
  \<^verbatim>\<open>parseBase64\<close> is used as it is returned. The documents of a batch are those that
  \<^verbatim>\<open>convertDocFormat\<close> builds: \<^verbatim>\<open>doc.revs\<close> has an entry for \<^verbatim>\<open>doc.rev\<close>.
\<close>

definition bin_length :: "bin \<Rightarrow> nat option" where
  "bin_length b = (case b of BinString s \<Rightarrow> Some (length s) | BinError _ \<Rightarrow> None)"

definition preProcessAttachment :: "deps \<Rightarrow> attachment \<Rightarrow> attachment option" where
  "preProcessAttachment E a =
     (if stub a then Some a
      else case att_data a of
        Some (DataString s) \<Rightarrow>
          (let asBinary = parseBase64 E s in
           case binStringToBlobOrBuffer E asBinary (content_type a) of
             None \<Rightarrow> None
           | Some blob \<Rightarrow>
               (case md5 E asBinary of
                  None \<Rightarrow> None
                | Some result \<Rightarrow>
                    Some (a\<lparr> att_data := Some (DataBlob blob),
                             att_length := bin_length asBinary,
                             digest := Some (''md5-'' @ result) \<rparr>)))
      | _ \<Rightarrow> None)"

fun preProcessAll :: "deps \<Rightarrow> (string \<times> attachment) list \<Rightarrow> (string \<times> attachment) list option" where
  "preProcessAll E [] = Some []"
| "preProcessAll E ((k, a) # rest) =
     (case preProcessAttachment E (a\<lparr> att_name := Some k \<rparr>) of
        None \<Rightarrow> None
      | Some a' \<Rightarrow>
          (case preProcessAll E rest of
             None \<Rightarrow> None
           | Some rest' \<Rightarrow> Some ((k, a'\<lparr> att_name := None \<rparr>) # rest')))"

definition preProcessDoc :: "deps \<Rightarrow> doc \<Rightarrow> doc option" where
  "preProcessDoc E d =
     (case revs d (doc_rev d) of
        None \<Rightarrow> None
      | Some ri \<Rightarrow>
          (case b_attachments (data ri) of
             None \<Rightarrow> Some d
           | Some atts \<Rightarrow>
               (case preProcessAll E atts of
                  None \<Rightarrow> None
                | Some processed \<Rightarrow>
                    Some (d\<lparr> revs := (revs d)
                      (doc_rev d \<mapsto> ri\<lparr> data := (data ri)\<lparr> b_attachments := Some processed \<rparr> \<rparr>) \<rparr>))))"

fun preProcessAttachments :: "deps \<Rightarrow> doc list \<Rightarrow> doc list option" where
  "preProcessAttachments E [] = Some []"
| "preProcessAttachments E (d # ds) =
     (case preProcessDoc E d of
        None \<Rightarrow> None
      | Some d' \<Rightarrow>
          (case preProcessAttachments E ds of
             None \<Rightarrow> None
           | Some ds' \<Rightarrow> Some (d' # ds')))"

subsection \<open>Reading the stored records\<close>

text \<open>
  \<^verbatim>\<open>fetchExistingDocs\<close> reads the record of every document id of the batch and files
  each record found under its own \<^verbatim>\<open>id\<close>.
\<close>

definition fetchExistingDocs :: "(string \<rightharpoonup> doc) \<Rightarrow> doc list \<Rightarrow> (string \<rightharpoonup> doc)" where
  "fetchExistingDocs store ds =
     foldl (\<lambda>oldDocs d. case store (doc_id d) of
                           None \<Rightarrow> oldDocs
                         | Some r \<Rightarrow> oldDocs(doc_id r \<mapsto> r)) Map.empty ds"

subsection \<open>update\<close>

text \<open>
  \<^verbatim>\<open>update\<close> returns \<^verbatim>\<open>false\<close> (\<open>Skipped\<close>), or throws (\<open>Threw\<close>), or returns an
  error or the document. It assigns to the properties of its argument and of
  \<^verbatim>\<open>oldDoc.revs\<close>, so the model returns both objects as they are afterwards:
  \<open>Updated result doc' oldDoc'\<close>, where \<open>doc'\<close> is the object that
  \<^verbatim>\<open>processDocs\<close> still calls \<^verbatim>\<open>doc\<close>. On the reattaching path the variable
  \<^verbatim>\<open>doc\<close> of \<^verbatim>\<open>update\<close> is bound to a new object, and the caller's object keeps its
  revision tree.
\<close>

datatype update_result = Skipped | Threw | Updated "error + doc" doc doc

definition inConflict :: "opts \<Rightarrow> doc \<Rightarrow> doc \<Rightarrow> merged \<Rightarrow> bool" where
  "inConflict op d oldDoc mg =
     (new_edits op \<and>
       ((truthy (deleted oldDoc) \<and> truthy (deleted d)) \<or>
        (\<not> truthy (deleted oldDoc) \<and> m_conflicts mg \<noteq> ''new_leaf'') \<or>
        (truthy (deleted oldDoc) \<and> \<not> truthy (deleted d) \<and> m_conflicts mg = ''new_branch'')))"

definition update_merge :: "deps \<Rightarrow> opts \<Rightarrow> nat \<Rightarrow> doc \<Rightarrow> doc \<Rightarrow> (error + doc) \<times> doc \<times> doc" where
  "update_merge E op limit d oldDoc =
     (let mg = merge E (rev_tree oldDoc) (first_path (rev_tree d)) limit;
          rs = (revs oldDoc)(doc_rev d := revs d (doc_rev d));
          d' = d\<lparr> stemmedRevs := Some (m_stemmedRevs mg), rev_tree := m_tree mg, revs := rs \<rparr>;
          oldDoc' = oldDoc\<lparr> revs := rs \<rparr>
      in (if inConflict op d oldDoc mg then Inl (createError REV_CONFLICT None) else Inr d',
          d', oldDoc'))"

definition isRoot :: "string \<Rightarrow> bool" where
  "isRoot r = (take 2 r = ''1-'')"

definition update :: "deps \<Rightarrow> opts \<Rightarrow> nat \<Rightarrow> doc \<Rightarrow> doc \<Rightarrow> update_result" where
  "update E op limit d oldDoc =
     (if revs oldDoc (doc_rev d) \<noteq> None then Skipped
      else if truthy (deleted oldDoc) \<and> \<not> truthy (deleted d) \<and> new_edits op \<and> isRoot (doc_rev d)
      then
        (case revs d (doc_rev d) of
           None \<Rightarrow> Threw
         | Some ri \<Rightarrow>
             (let tmp = (data ri)\<lparr> b_rev := Some (doc_rev oldDoc), b_id := Some (doc_id oldDoc) \<rparr>;
                  d0 = d\<lparr> revs := (revs d)(doc_rev d \<mapsto> ri\<lparr> data := tmp \<rparr>) \<rparr>
              in case parseDoc E tmp (new_edits op) of
                   Inl e \<Rightarrow> Threw
                 | Inr p \<Rightarrow>
                     (case update_merge E op limit (convertDocFormat p) oldDoc of
                        (r, d', oldDoc') \<Rightarrow> Updated r d0 oldDoc')))
      else
        (case update_merge E op limit d oldDoc of
           (r, d', oldDoc') \<Rightarrow> Updated r d' oldDoc'))"

subsection \<open>write (here \<open>write_doc\<close>)\<close>

text \<open>
  \<^verbatim>\<open>write\<close> throws (\<open>None\<close>) when \<^verbatim>\<open>doc.revs\<close> has no entry for the winning revision;
  otherwise it returns the record it hands to \<^verbatim>\<open>put\<close>, whose \<^verbatim>\<open>seq\<close> is the
  incremented counter. \<^verbatim>\<open>doc.data\<close> and \<^verbatim>\<open>doc.revs[winningRev].data\<close> are one
  object, so replacing the attachments of \<^verbatim>\<open>doc.data\<close> by stubs shows in the entry
  of \<^verbatim>\<open>revs\<close> as well, unless that entry has been deleted.
\<close>

definition stub_of :: "attachment \<Rightarrow> attachment" where
  "stub_of a = \<lparr> stub = True, att_data = None, content_type = None, att_length = None,
                 digest = digest a, att_name = None \<rparr>"

definition delete_revs :: "string list option \<Rightarrow> (string \<rightharpoonup> revinfo) \<Rightarrow> (string \<rightharpoonup> revinfo)" where
  "delete_revs st rs = (case st of None \<Rightarrow> rs | Some l \<Rightarrow> foldl (\<lambda>m r. m(r := None)) rs l)"

definition set_attachments :: "(string \<times> attachment) list \<Rightarrow> (string \<times> attachment) list \<Rightarrow> (string \<times> attachment) list" where
  "set_attachments new old = foldl (\<lambda>acc (k, a). AList.update k a acc) old new"

definition stub_body :: "body \<Rightarrow> body" where
  "stub_body b =
     (case b_attachments b of
        None \<Rightarrow> b
      | Some l \<Rightarrow> b\<lparr> b_attachments := Some (map (\<lambda>(k, a). (k, stub_of a)) l) \<rparr>)"

definition write_doc :: "deps \<Rightarrow> nat \<Rightarrow> doc \<Rightarrow> doc option" where
  "write_doc E seq d =
     (let winningRev = calculateWinningRev E (rev_tree d) in
      case revs d winningRev of
        None \<Rightarrow> None
      | Some ri \<Rightarrow>
          (let rs = delete_revs (stemmedRevs d) (revs d);
               atts = (case attachments d of None \<Rightarrow> [] | Some a \<Rightarrow> a);
               body' = stub_body (data ri);
               atts' = (case b_attachments (data ri) of
                          None \<Rightarrow> atts
                        | Some l \<Rightarrow> set_attachments l atts);
               rs' = (if rs winningRev = None then rs else rs(winningRev \<mapsto> ri\<lparr> data := body' \<rparr>))
           in Some (d\<lparr> doc_data := Some body',
                       doc_rev := winningRev,
                       deleted := Some (if rev_deleted ri then 1 else 0),
                       doc_seq := Some (Suc seq),
                       revs := rs',
                       stemmedRevs := None,
                       attachments := Some atts' \<rparr>)))"

subsection \<open>processDocs\<close>

text \<open>
  \<^verbatim>\<open>results\<close> is a JavaScript array that starts empty and is assigned by index: an
  assignment beyond the end extends the array and leaves holes (\<open>None\<close>).
\<close>

datatype result = Ok string string | Err error

definition js_set :: "'a option list \<Rightarrow> nat \<Rightarrow> 'a \<Rightarrow> 'a option list" where
  "js_set xs i v =
     (if i < length xs then xs[i := Some v]
      else xs @ replicate (i - length xs) None @ [Some v])"

definition js_get :: "'a option list \<Rightarrow> nat \<Rightarrow> 'a option" where
  "js_get xs i = (if i < length xs then xs ! i else None)"

text \<open>
  The state that the loop of \<^verbatim>\<open>processDocs\<close> changes: the dictionary \<open>oldDocs\<close>, the
  array \<open>results\<close>, the counter \<^verbatim>\<open>api.metaData.seq\<close>, and the records handed to
  \<^verbatim>\<open>put\<close>, oldest first, each with the index of its input. \<open>halted\<close> is set when an
  exception leaves the loop; the documents after it are not visited. Every \<^verbatim>\<open>put\<close>
  succeeds, so its \<^verbatim>\<open>onsuccess\<close> handler has filled the slot of \<open>results\<close> when the
  transaction completes.
\<close>

record pstate =
  oldDocs :: "string \<rightharpoonup> doc"
  results :: "result option list"
  seq_counter :: nat
  puts :: "(nat \<times> doc) list"
  halted :: bool

definition finish :: "deps \<Rightarrow> opts \<Rightarrow> pstate \<Rightarrow> nat \<Rightarrow> doc \<Rightarrow> error + doc \<Rightarrow> pstate" where
  "finish E op st i d newDoc =
     (if new_edits op \<and> rootIsMissing d = None then st\<lparr> halted := True \<rparr>
      else
        (case (if new_edits op \<and> rootIsMissing d = Some True
               then Inl (createError REV_CONFLICT None) else newDoc) of
           Inl e \<Rightarrow> st\<lparr> results := js_set (results st) i (Err e) \<rparr>
         | Inr nd \<Rightarrow>
             (case write_doc E (seq_counter st) nd of
                None \<Rightarrow> st\<lparr> oldDocs := (oldDocs st)(doc_id nd \<mapsto> nd), halted := True \<rparr>
              | Some w \<Rightarrow>
                  st\<lparr> oldDocs := (if doc_id d = doc_id w then oldDocs st
                                   else (case oldDocs st (doc_id d) of
                                           None \<Rightarrow> oldDocs st
                                         | Some od \<Rightarrow> (oldDocs st)(doc_id d \<mapsto> od\<lparr> revs := revs w \<rparr>)))
                                  (doc_id w \<mapsto> w),
                      results := js_set (results st) i (Ok (doc_id w) (doc_rev w)),
                      seq_counter := Suc (seq_counter st),
                      puts := puts st @ [(i, w)] \<rparr>)))"

definition processDoc :: "deps \<Rightarrow> opts \<Rightarrow> nat \<Rightarrow> pstate \<Rightarrow> nat \<times> doc \<Rightarrow> pstate" where
  "processDoc E op limit st x =
     (case x of (i, d) \<Rightarrow>
        if halted st then st
        else if was_delete op \<noteq> None \<and> oldDocs st (doc_id d) = None
        then finish E op st i d (Inl (createError MISSING_DOC (Some ''deleted'')))
        else
          (case oldDocs st (doc_id d) of
             Some oldDoc \<Rightarrow>
               (case update E op limit d oldDoc of
                  Skipped \<Rightarrow> st
                | Threw \<Rightarrow> st\<lparr> halted := True \<rparr>
                | Updated r d' oldDoc' \<Rightarrow>
                    finish E op (st\<lparr> oldDocs := (oldDocs st)(doc_id d \<mapsto> oldDoc') \<rparr>) i d' r)
           | None \<Rightarrow>
               (let mg = merge E [] (first_path (rev_tree d)) limit;
                    d' = d\<lparr> rev_tree := m_tree mg, stemmedRevs := Some (m_stemmedRevs mg) \<rparr>
                in finish E op st i d' (Inr d'))))"

definition processDocs :: "deps \<Rightarrow> opts \<Rightarrow> nat \<Rightarrow> doc list \<Rightarrow> pstate \<Rightarrow> pstate" where
  "processDocs E op limit ds st = foldl (processDoc E op limit) st (enumerate 0 ds)"

subsection \<open>The exported function\<close>

text \<open>
  What a caller and the backend observe of one call, in order: the transaction is
  opened, the change listener is notified, the callback receives an error or the
  array of results. The transaction is opened by the first statements of the function.
  The parse loop returns with \<^verbatim>\<open>callback(result)\<close> at the first document whose parse
  result has an \<^verbatim>\<open>error\<close>; no handler of the transaction is registered by then.
  When the pre-processing of the attachments fails, no request is made, and the
  transaction completes with \<open>results\<close> as it was created. The backend is assumed to
  execute every request (no abort and no timeout).
\<close>

datatype event = OpenTransaction | Notify string | CallbackError error | CallbackResults "result option list"

record outcome =
  events :: "event list"
  written :: "(nat \<times> doc) list"
  seq_after :: nat

fun parseDocs :: "deps \<Rightarrow> bool \<Rightarrow> body list \<Rightarrow> error + doc list" where
  "parseDocs E ne [] = Inr []"
| "parseDocs E ne (r # rs) =
     (case parseDoc E r ne of
        Inl e \<Rightarrow> Inl e
      | Inr p \<Rightarrow>
          (case parseDocs E ne rs of
             Inl e \<Rightarrow> Inl e
           | Inr ds \<Rightarrow> Inr (convertDocFormat p # ds)))"

definition init_state :: "(string \<rightharpoonup> doc) \<Rightarrow> metaData \<Rightarrow> doc list \<Rightarrow> pstate" where
  "init_state store m ds =
     \<lparr> oldDocs = fetchExistingDocs store ds, results = [], seq_counter = meta_seq m,
       puts = [], halted = False \<rparr>"

definition bulkDocs :: "deps \<Rightarrow> (string \<rightharpoonup> doc) \<Rightarrow> metaData \<Rightarrow> opts \<Rightarrow> body list \<Rightarrow> outcome" where
  "bulkDocs E store m op req =
     (case parseDocs E (new_edits op) req of
        Inl e \<Rightarrow> \<lparr> events = [OpenTransaction, CallbackError e], written = [], seq_after = meta_seq m \<rparr>
      | Inr ds \<Rightarrow>
          (case preProcessAttachments E ds of
             None \<Rightarrow> \<lparr> events = [OpenTransaction, Notify (meta_name m), CallbackResults []],
                       written = [], seq_after = meta_seq m \<rparr>
           | Some ds' \<Rightarrow>
               (let st = processDocs E op (revsLimit m) ds' (init_state store m ds') in
                \<lparr> events = [OpenTransaction, Notify (meta_name m), CallbackResults (results st)],
                  written = puts st, seq_after = seq_counter st \<rparr>)))"

section \<open>getAttachment.js\<close>



section \<open>The merger's stemming\<close>

text \<open>
  \<^verbatim>\<open>merge\<close> (\<^verbatim>\<open>deps/merge/index\<close>) is imported by \<^verbatim>\<open>bulkDocs.js\<close> and its source
  is not part of the two files; the definitions of this section follow the
  specification of the merger instead. \<open>decimal\<close> writes a generation in decimal
  digits.
\<close>

definition digit_char :: "nat \<Rightarrow> char" where
  "digit_char k = char_of (k + 48)"

fun decimal :: "nat \<Rightarrow> string" where
  "decimal n = (if 10 \<le> n then decimal (n div 10) @ [digit_char (n mod 10)] else [digit_char n])"

declare decimal.simps [simp del]

text \<open>
  Modelled from the spec: "Revision identifier: a pair (generation: positive integer,
  id: opaque token), serialized as \<^verbatim>\<open><generation>-<id>\<close>"; the keys of \<^verbatim>\<open>revs\<close>
  and the entries of \<^verbatim>\<open>stemmedRevs\<close> are such strings.
\<close>

definition rev_string :: "nat \<Rightarrow> string \<Rightarrow> string" where
  "rev_string p i = decimal p @ ''-'' @ i"

text \<open>
  Modelled from the spec: the merger (\<^verbatim>\<open>merge\<close>, not among the source files)
  "prunes each branch so that no branch exceeds revsLimit generations from its
  deepest leaf". \<open>height\<close> is the number of generations between a node and the
  deepest leaf below it.
\<close>

fun height :: "node \<Rightarrow> nat" where
  "height (Node i s cs) = (if cs = [] then 0 else Suc (foldr max (map height cs) 0))"

text \<open>
  Modelled from the spec: of the merger (\<^verbatim>\<open>merge\<close>, not among the source files),
  "pruned ancestor nodes keep a missing status marker rather than being deleted
  outright, so shape is preserved for future merges". A node is pruned when its height
  is \<open>limit\<close> or more.
\<close>

fun mark :: "nat \<Rightarrow> node \<Rightarrow> node" where
  "mark limit (Node i s cs) =
     Node i (if limit \<le> height (Node i s cs) then ''missing'' else s) (map (mark limit) cs)"

text \<open>
  Modelled from the spec: of the merger (\<^verbatim>\<open>merge\<close>, not among the source files),
  "removed node ids are returned in stemmedRevs"; \<open>p\<close> is the generation of the
  node.
\<close>

fun pruned :: "nat \<Rightarrow> nat \<Rightarrow> node \<Rightarrow> string list" where
  "pruned limit p (Node i s cs) =
     (if limit \<le> height (Node i s cs) then [rev_string p i] else [])
       @ concat (map (pruned limit (Suc p)) cs)"

text \<open>
  Modelled from the spec: the last step of the merger (\<^verbatim>\<open>merge\<close>, not among the
  source files), "After splicing, prunes each branch [...]". \<open>stem limit t\<close> is the
  pruning of the spliced tree \<open>t\<close>: the tree that the merger returns and the
  \<^verbatim>\<open>stemmedRevs\<close> it reports.
\<close>

definition stem :: "nat \<Rightarrow> path list \<Rightarrow> path list \<times> string list" where
  "stem limit t =
     (map (\<lambda>p. p\<lparr> ids := mark limit (ids p) \<rparr>) t,
      concat (map (\<lambda>p. pruned limit (pos p) (ids p)) t))"

text \<open>
  The shape of a tree is the tree without its status markers; \<open>tree_statuses\<close> lists
  every node of a tree as its revision identifier with its status.
\<close>

fun shape :: "node \<Rightarrow> node" where
  "shape (Node i s cs) = Node i [] (map shape cs)"

definition tree_shape :: "path list \<Rightarrow> path list" where
  "tree_shape t = map (\<lambda>p. p\<lparr> ids := shape (ids p) \<rparr>) t"

fun statuses :: "nat \<Rightarrow> node \<Rightarrow> (string \<times> string) list" where
  "statuses p (Node i s cs) = (rev_string p i, s) # concat (map (statuses (Suc p)) cs)"

definition tree_statuses :: "path list \<Rightarrow> (string \<times> string) list" where
  "tree_statuses t = concat (map (\<lambda>p. statuses (pos p) (ids p)) t)"

section \<open>Vocabulary of the properties\<close>

text \<open>
  \<open>resub_now st d\<close>: the document \<open>d\<close> re-submits a revision that the record known
  for its id already has (\<^verbatim>\<open>doc.rev in oldDoc.revs\<close>). \<open>resubmits \<dots> ds st0 j\<close> says
  so of the \<open>j\<close>-th document of a batch, in the state that the documents before it
  leave behind.
\<close>

definition resub_now :: "pstate \<Rightarrow> doc \<Rightarrow> bool" where
  "resub_now st d =
     (case oldDocs st (doc_id d) of None \<Rightarrow> False | Some oldDoc \<Rightarrow> revs oldDoc (doc_rev d) \<noteq> None)"

definition resubmits :: "deps \<Rightarrow> opts \<Rightarrow> nat \<Rightarrow> doc list \<Rightarrow> pstate \<Rightarrow> nat \<Rightarrow> bool" where
  "resubmits E op limit ds st0 j =
     resub_now (processDocs E op limit (take j ds) st0) (ds ! j)"

text \<open>
  \<open>slot_for ps j v\<close>: the value \<open>v\<close> is a result for the \<open>j\<close>-th input, given the
  records \<open>ps\<close> handed to \<^verbatim>\<open>put\<close>: one of the two per-document errors that
  \<^verbatim>\<open>processDocs\<close> creates, or \<^verbatim>\<open>{ok: true, id, rev}\<close> of the record written for
  that input.
\<close>

definition known_error :: "error \<Rightarrow> bool" where
  "known_error e = (e = createError MISSING_DOC (Some ''deleted'') \<or> e = createError REV_CONFLICT None)"

definition slot_for :: "(nat \<times> doc) list \<Rightarrow> nat \<Rightarrow> result \<Rightarrow> bool" where
  "slot_for ps j v =
     (case v of
        Err e \<Rightarrow> known_error e
      | Ok i r \<Rightarrow> (j, i, r) \<in> set (map (\<lambda>x. (fst x, doc_id (snd x), doc_rev (snd x))) ps))"

text \<open>
  The tree that \<^verbatim>\<open>rootIsMissing(doc)\<close> reads in \<^verbatim>\<open>processDocs\<close>: the merged tree
  on the new-document path and on the ordinary path of \<^verbatim>\<open>update\<close>, the tree as
  parsed on the \<^verbatim>\<open>was_delete\<close> path and on the path of \<^verbatim>\<open>update\<close> that reattaches
  the edit to a deleted leaf (there \<^verbatim>\<open>update\<close> merges into a new object).
\<close>

definition checked_tree :: "deps \<Rightarrow> opts \<Rightarrow> nat \<Rightarrow> pstate \<Rightarrow> doc \<Rightarrow> path list" where
  "checked_tree E op limit st d =
     (case oldDocs st (doc_id d) of
        None \<Rightarrow>
          if was_delete op \<noteq> None then rev_tree d
          else m_tree (merge E [] (first_path (rev_tree d)) limit)
      | Some oldDoc \<Rightarrow>
          if truthy (deleted oldDoc) \<and> \<not> truthy (deleted d) \<and> new_edits op \<and> isRoot (doc_rev d)
          then rev_tree d
          else m_tree (merge E (rev_tree oldDoc) (first_path (rev_tree d)) limit))"

definition root_status :: "path list \<Rightarrow> string option" where
  "root_status t = (case first_path t of None \<Rightarrow> None | Some p \<Rightarrow> Some (node_status (ids p)))"

text \<open>Invariants of the loop of \<^verbatim>\<open>processDocs\<close>, and what one iteration does.\<close>

definition step_puts :: "nat \<Rightarrow> pstate \<Rightarrow> pstate \<Rightarrow> bool" where
  "step_puts i st st' =
     ((puts st' = puts st \<and> seq_counter st' = seq_counter st) \<or>
      (\<exists>w. puts st' = puts st @ [(i, w)] \<and> seq_counter st' = Suc (seq_counter st) \<and>
           doc_seq w = Some (Suc (seq_counter st))))"

definition seq_inv :: "nat \<Rightarrow> nat \<Rightarrow> pstate \<Rightarrow> bool" where
  "seq_inv s0 k st =
     (seq_counter st = s0 + length (puts st) \<and>
      map (\<lambda>x. doc_seq (snd x)) (puts st) = map Some [Suc s0 ..< Suc (s0 + length (puts st))] \<and>
      sorted_wrt (<) (map fst (puts st)) \<and>
      (\<forall>x \<in> set (puts st). fst x < k))"

definition step_results :: "nat \<Rightarrow> bool \<Rightarrow> pstate \<Rightarrow> pstate \<Rightarrow> bool" where
  "step_results i resub st st' =
     (halted st' \<or>
      (resub \<and> results st' = results st \<and> puts st' = puts st) \<or>
      (\<not> resub \<and> (\<exists>v. results st' = js_set (results st) i v \<and> slot_for (puts st') i v \<and>
                       set (puts st) \<subseteq> set (puts st'))))"

definition results_inv :: "deps \<Rightarrow> opts \<Rightarrow> nat \<Rightarrow> doc list \<Rightarrow> pstate \<Rightarrow> pstate \<Rightarrow> bool" where
  "results_inv E op limit ds st0 st =
     (length (results st) \<le> length ds \<and>
      (\<forall>j < length ds.
         (js_get (results st) j = None \<longleftrightarrow> resubmits E op limit ds st0 j) \<and>
         (\<forall>v. js_get (results st) j = Some v \<longrightarrow> slot_for (puts st) j v)))"


text \<open>\<open>accepted r\<close>: \<^verbatim>\<open>update\<close> returned the document, neither an error nor \<^verbatim>\<open>false\<close>.\<close>

definition accepted :: "update_result \<Rightarrow> bool" where
  "accepted r = (case r of Updated (Inr d) d' oldDoc' \<Rightarrow> True | _ \<Rightarrow> False)"

section \<open>Example inputs\<close>

text \<open>
  Concrete instances of the imported functions, given as tables: what the parser
  returns for the raw documents of the examples, what the merger returns for the trees
  of the examples, and the winning revision of each resulting tree. The merger of the
  examples adds a branch to an empty tree as its only root (\<^verbatim>\<open>new_leaf\<close>), and a
  branch it has no entry for as a further root (\<^verbatim>\<open>new_branch\<close>). The parser of the
  examples rejects a raw document it has no entry for. \<open>atob\<close> fails on every string
  it has no entry for.
\<close>

definition new_leaf :: "path list \<Rightarrow> merged" where
  "new_leaf t = \<lparr> m_tree = t, m_stemmedRevs = [], m_conflicts = ''new_leaf'' \<rparr>"

definition table_deps ::
  "((body \<times> bool) \<times> parsed) list \<Rightarrow> ((path list \<times> path option) \<times> merged) list \<Rightarrow>
   (path list \<times> string) list \<Rightarrow> (string \<times> string) list \<Rightarrow> deps" where
  "table_deps ps ms ws bs =
     \<lparr> parseDoc = (\<lambda>b ne. case map_of ps (b, ne) of
                              None \<Rightarrow> Inl (PouchError (OTHER ''bad_request'') None)
                            | Some p \<Rightarrow> Inr p),
       merge = (\<lambda>t p l. case map_of ms (t, p) of
                           Some m \<Rightarrow> m
                         | None \<Rightarrow>
                             (case p of
                                None \<Rightarrow> \<lparr> m_tree = t, m_stemmedRevs = [], m_conflicts = ''internal_node'' \<rparr>
                              | Some q \<Rightarrow>
                                  if t = [] then new_leaf [q]
                                  else \<lparr> m_tree = t @ [q], m_stemmedRevs = [], m_conflicts = ''new_branch'' \<rparr>)),
       calculateWinningRev = (\<lambda>t. case map_of ws t of None \<Rightarrow> [] | Some w \<Rightarrow> w),
       atob = map_of bs,
       md5 = (\<lambda>b. Some ''d41d8cd9''),
       binStringToBlobOrBuffer = (\<lambda>b c. Some []) \<rparr>"

definition plain_body :: "string \<Rightarrow> body" where
  "plain_body f = \<lparr> b_id = None, b_rev = None, b_attachments = None, b_fields = f \<rparr>"

definition raw_doc :: "string \<Rightarrow> string option \<Rightarrow> string \<Rightarrow> body" where
  "raw_doc i r f = \<lparr> b_id = Some i, b_rev = r, b_attachments = None, b_fields = f \<rparr>"

definition leaf_path :: "nat \<Rightarrow> string \<Rightarrow> path" where
  "leaf_path p i = \<lparr> pos = p, ids = Node i ''available'' [] \<rparr>"

definition child_path :: "nat \<Rightarrow> string \<Rightarrow> string \<Rightarrow> path" where
  "child_path p i j = \<lparr> pos = p, ids = Node i ''missing'' [Node j ''available'' []] \<rparr>"

definition parsed_doc :: "string \<Rightarrow> string \<Rightarrow> path \<Rightarrow> bool \<Rightarrow> body \<Rightarrow> parsed" where
  "parsed_doc i r p del b =
     \<lparr> p_metadata = \<lparr> md_id = i, md_rev = r, md_rev_tree = [p], md_revs = None, md_deleted = del \<rparr>,
       p_data = b \<rparr>"

definition stored_doc :: "string \<Rightarrow> string \<Rightarrow> path list \<Rightarrow> (string \<rightharpoonup> revinfo) \<Rightarrow> nat \<Rightarrow> body \<Rightarrow> nat \<Rightarrow> doc" where
  "stored_doc i r t rs del b s =
     \<lparr> doc_id = i, doc_rev = r, rev_tree = t, revs = rs, deleted = Some del, doc_data = Some b,
       doc_seq = Some s, stemmedRevs = None, attachments = Some [] \<rparr>"

text \<open>
  The stored records of the examples: \<open>rec_a\<close> has the single revision \<open>1-x\<close>;
  \<open>rec_deleted\<close> was created as \<open>1-x\<close> and deleted as \<open>2-y\<close>; \<open>rec_replicated\<close>
  is a deleted document that arrived by replication as \<open>2-b\<close> with the ancestor
  \<open>1-a\<close>, whose body the store never had.
\<close>

definition rec_a :: doc where
  "rec_a = stored_doc ''a'' ''1-x'' [leaf_path 1 ''x'']
             [''1-x'' \<mapsto> \<lparr> data = plain_body ''{}'', rev_deleted = False \<rparr>] 0 (plain_body ''{}'') 1"

definition rec_deleted :: doc where
  "rec_deleted = stored_doc ''a'' ''2-y''
             [\<lparr> pos = 1, ids = Node ''x'' ''available'' [Node ''y'' ''available'' []] \<rparr>]
             [''1-x'' \<mapsto> \<lparr> data = plain_body ''{}'', rev_deleted = False \<rparr>,
              ''2-y'' \<mapsto> \<lparr> data = plain_body [], rev_deleted = True \<rparr>] 1 (plain_body []) 2"

definition rec_replicated :: doc where
  "rec_replicated = stored_doc ''d'' ''2-b''
             [\<lparr> pos = 1, ids = Node ''a'' ''missing'' [Node ''b'' ''available'' []] \<rparr>]
             [''2-b'' \<mapsto> \<lparr> data = plain_body [], rev_deleted = True \<rparr>] 1 (plain_body []) 3"

text \<open>The stores of the examples.\<close>

definition empty_store :: "string \<rightharpoonup> doc" where
  "empty_store = Map.empty"

definition store_a :: "string \<rightharpoonup> doc" where
  "store_a = [''a'' \<mapsto> rec_a]"

definition store_deleted :: "string \<rightharpoonup> doc" where
  "store_deleted = [''a'' \<mapsto> rec_deleted]"

definition store_replicated :: "string \<rightharpoonup> doc" where
  "store_replicated = [''d'' \<mapsto> rec_replicated]"

definition bad_attachment :: attachment where
  "bad_attachment = \<lparr> stub = False, att_data = Some (DataString ''%%%''),
       content_type = Some ''text/plain'', att_length = None, digest = None, att_name = None \<rparr>"

definition raw_with_attachment :: body where
  "raw_with_attachment = \<lparr> b_id = Some ''b'', b_rev = None,
       b_attachments = Some [(''f.txt'', bad_attachment)], b_fields = ''{}'' \<rparr>"

definition tree_xyz :: "path list" where
  "tree_xyz = [\<lparr> pos = 1, ids = Node ''x'' ''available'' [Node ''y'' ''available'' [Node ''z'' ''available'' []]] \<rparr>]"

definition tree_abm :: "path list" where
  "tree_abm = [\<lparr> pos = 1, ids = Node ''a'' ''missing'' [Node ''b'' ''available'' [Node ''m'' ''available'' []]] \<rparr>]"

definition tree_xy :: "path list" where
  "tree_xy = [\<lparr> pos = 1, ids = Node ''x'' ''available'' [Node ''y'' ''available'' []] \<rparr>]"

definition ex_deps :: deps where
  "ex_deps = table_deps
     [((raw_doc ''a'' (Some ''1-x'') ''{}'', False), parsed_doc ''a'' ''1-x'' (leaf_path 1 ''x'') False (plain_body ''{}'')),
      ((raw_doc ''b'' (Some ''1-y'') ''{}'', False), parsed_doc ''b'' ''1-y'' (leaf_path 1 ''y'') False (plain_body ''{}'')),
      ((raw_doc ''a'' None ''{}'', True), parsed_doc ''a'' ''1-n'' (leaf_path 1 ''n'') False (plain_body ''{}'')),
      ((raw_doc ''b'' None ''{}'', True), parsed_doc ''b'' ''1-n'' (leaf_path 1 ''n'') False (plain_body ''{}'')),
      ((raw_with_attachment, True),
         parsed_doc ''b'' ''1-n'' (leaf_path 1 ''n'') False (raw_with_attachment\<lparr> b_id := None \<rparr>)),
      ((raw_doc ''a'' (Some ''2-y'') ''_deleted'', True), parsed_doc ''a'' ''3-z'' (child_path 2 ''y'' ''z'') True (plain_body [])),
      ((raw_doc ''c'' (Some ''1-x'') ''_deleted'', True), parsed_doc ''c'' ''2-n'' (child_path 1 ''x'' ''n'') True (plain_body [])),
      ((raw_doc ''c'' None ''_deleted'', True), parsed_doc ''c'' ''1-n'' (leaf_path 1 ''n'') True (plain_body [])),
      ((raw_doc ''c'' (Some ''1-x'') ''{}'', True), parsed_doc ''c'' ''2-n'' (child_path 1 ''x'' ''n'') False (plain_body ''{}'')),
      ((raw_doc ''d'' None ''{}'', True), parsed_doc ''d'' ''1-n'' (leaf_path 1 ''n'') False (plain_body ''{}'')),
      ((raw_doc ''d'' (Some ''2-b'') ''{}'', True), parsed_doc ''d'' ''3-m'' (child_path 2 ''b'' ''m'') False (plain_body ''{}''))]
     [((rev_tree rec_deleted, Some (child_path 2 ''y'' ''z'')), new_leaf tree_xyz),
      ((rev_tree rec_replicated, Some (child_path 2 ''b'' ''m'')), new_leaf tree_abm)]
     [([leaf_path 1 ''y''], ''1-y''),
      ([leaf_path 1 ''n''], ''1-n''),
      ([child_path 1 ''x'' ''n''], ''2-n''),
      (tree_xyz, ''3-z''),
      (tree_abm, ''3-m''),
      (fst (stem 1 tree_xy), ''2-y'')]
     []"

text \<open>
  A replicated batch that re-submits the recorded revision \<open>1-x\<close> of document
  \<open>a\<close> and brings the new document \<open>b\<close>, as raw documents and as the parser and
  \<^verbatim>\<open>convertDocFormat\<close> turn them into documents.
\<close>

definition resubmission_batch :: "body list" where
  "resubmission_batch = [raw_doc ''a'' (Some ''1-x'') ''{}'', raw_doc ''b'' (Some ''1-y'') ''{}'']"

definition resubmission_docs :: "doc list" where
  "resubmission_docs =
     [convertDocFormat (parsed_doc ''a'' ''1-x'' (leaf_path 1 ''x'') False (plain_body ''{}'')),
      convertDocFormat (parsed_doc ''b'' ''1-y'' (leaf_path 1 ''y'') False (plain_body ''{}''))]"

text \<open>
  The same functions, with an \<open>md5\<close> whose promise rejects when it is given the
  error object of \<^verbatim>\<open>parseBase64\<close> instead of a binary string.
\<close>

definition strict_md5_deps :: deps where
  "strict_md5_deps =
     ex_deps\<lparr> md5 := (\<lambda>b. case b of BinString s \<Rightarrow> Some ''d41d8cd9'' | BinError e \<Rightarrow> None) \<rparr>"

definition ex_meta :: metaData where
  "ex_meta = \<lparr> meta_name = ''db'', meta_seq = 5, meta_revsLimit = None \<rparr>"

definition replication :: opts where
  "replication = \<lparr> new_edits = False, was_delete = None \<rparr>"

definition edits :: opts where
  "edits = \<lparr> new_edits = True, was_delete = None \<rparr>"

definition removal :: opts where
  "removal = \<lparr> new_edits = True, was_delete = Some True \<rparr>"

text \<open>
  A document as \<^verbatim>\<open>update\<close> returns it after the merger has stemmed the tree
  \<open>1-x\<close>, \<open>2-y\<close> with a limit of one generation; the body of \<open>2-y\<close> has an
  attachment that the pre-processing has digested.
\<close>

definition digested_attachment :: attachment where
  "digested_attachment = \<lparr> stub = False, att_data = Some (DataBlob ''hello''),
       content_type = Some ''text/plain'', att_length = Some 5, digest = Some ''md5-5d41'', att_name = None \<rparr>"

definition body_with_attachment :: body where
  "body_with_attachment = \<lparr> b_id = None, b_rev = None,
       b_attachments = Some [(''f.txt'', digested_attachment)], b_fields = ''{}'' \<rparr>"

definition stemmed_doc :: doc where
  "stemmed_doc =
     \<lparr> doc_id = ''a'', doc_rev = ''2-y'', rev_tree = fst (stem 1 tree_xy),
       revs = [''1-x'' \<mapsto> \<lparr> data = plain_body ''{}'', rev_deleted = False \<rparr>,
               ''2-y'' \<mapsto> \<lparr> data = body_with_attachment, rev_deleted = False \<rparr>],
       deleted = None, doc_data = None, doc_seq = None,
       stemmedRevs = Some (snd (stem 1 tree_xy)), attachments = None \<rparr>"

definition store_with_attachment :: "string \<rightharpoonup> doc" where
  "store_with_attachment =
     [''a'' \<mapsto> (stored_doc ''a'' ''1-x'' [leaf_path 1 ''x'']
                   [''1-x'' \<mapsto> \<lparr> data = plain_body ''{}'', rev_deleted = False \<rparr>] 0 (plain_body ''{}'') 1)
                 \<lparr> attachments := Some [(''f.txt'', digested_attachment)] \<rparr>]"

section \<open>Evaluation and auxiliary lemmas\<close>

lemmas model_defs = bulkDocs_def processDocs_def processDoc_def finish_def write_doc_def update_def
  update_merge_def inConflict_def isRoot_def convertDocFormat_def fetchExistingDocs_def init_state_def
  preProcessDoc_def preProcessAttachment_def parseBase64_def rootIsMissing_def first_path_def
  revsLimit_def truthy_def createError_def js_set_def js_get_def delete_revs_def set_attachments_def
  stub_of_def stub_body_def bin_length_def Let_def enumerate_eq_zip

lemmas ex_defs = table_deps_def plain_body_def raw_doc_def leaf_path_def child_path_def parsed_doc_def
  stored_doc_def new_leaf_def rec_a_def rec_deleted_def rec_replicated_def bad_attachment_def
  raw_with_attachment_def tree_xyz_def tree_abm_def tree_xy_def ex_deps_def ex_meta_def
  replication_def edits_def removal_def digested_attachment_def body_with_attachment_def
  stemmed_doc_def store_with_attachment_def resubmission_batch_def resubmission_docs_def
  strict_md5_deps_def empty_store_def store_a_def store_deleted_def store_replicated_def


lemma length_js_set: "length (js_set xs i v) = max (length xs) (Suc i)"
  by (auto simp: js_set_def)

lemma js_get_js_set: "js_get (js_set xs i v) j = (if j = i then Some v else js_get xs j)"
  by (auto simp: js_set_def js_get_def nth_append)

lemma js_get_beyond: "length xs \<le> j \<Longrightarrow> js_get xs j = None"
  by (simp add: js_get_def)

lemma processDocs_Nil: "processDocs E op limit [] st = st"
  by (simp add: processDocs_def)

lemma processDocs_snoc:
  "processDocs E op limit (ds @ [d]) st =
     processDoc E op limit (processDocs E op limit ds st) (length ds, d)"
  by (simp add: processDocs_def enumerate_append_eq)

lemma processDoc_halted: "halted st \<Longrightarrow> processDoc E op limit st x = st"
  by (cases x) (simp add: processDoc_def)

lemma parseDocs_length: "parseDocs E ne req = Inr ds \<Longrightarrow> length ds = length req"
  by (induction req arbitrary: ds) (auto split: sum.splits)

lemma preProcessAttachments_length:
  "preProcessAttachments E ds = Some ds' \<Longrightarrow> length ds' = length ds"
  by (induction ds arbitrary: ds') (auto split: option.splits)

subsection \<open>The sequence counter\<close>

lemma write_doc_seq: "write_doc E s d = Some w \<Longrightarrow> doc_seq w = Some (Suc s)"
  by (auto simp: write_doc_def Let_def split: option.splits)

lemma finish_puts: "step_puts i st (finish E op st i d r)"
  by (auto simp: finish_def step_puts_def write_doc_seq split: sum.splits option.splits)

lemma finish_puts_frame:
  "puts st0 = puts st \<Longrightarrow> seq_counter st0 = seq_counter st \<Longrightarrow>
   step_puts i st (finish E op st0 i d r)"
  using finish_puts[of i st0 E op d r] by (simp add: step_puts_def)

lemma processDoc_puts: "step_puts i st (processDoc E op limit st (i, d))"
proof (cases "halted st")
  case True
  then show ?thesis by (simp add: processDoc_halted step_puts_def)
next
  case nh: False
  show ?thesis
  proof (cases "oldDocs st (doc_id d)")
    case None
    with nh show ?thesis
      by (simp add: processDoc_def Let_def finish_puts)
  next
    case (Some oldDoc)
    show ?thesis
    proof (cases "update E op limit d oldDoc")
      case Skipped
      with nh Some show ?thesis by (simp add: processDoc_def step_puts_def)
    next
      case Threw
      with nh Some show ?thesis by (simp add: processDoc_def step_puts_def)
    next
      case (Updated r d' oldDoc')
      with nh Some show ?thesis by (simp add: processDoc_def finish_puts_frame)
    qed
  qed
qed

lemma seq_inv_step:
  assumes "seq_inv s0 k st" and "step_puts k st st'"
  shows "seq_inv s0 (Suc k) st'"
  using assms
  by (auto simp: seq_inv_def step_puts_def sorted_wrt_append less_Suc_eq)

lemma processDocs_seq_inv:
  "seq_inv s0 0 st \<Longrightarrow> seq_inv s0 (length ds) (processDocs E op limit ds st)"
proof (induction ds rule: rev_induct)
  case Nil
  then show ?case by (simp add: processDocs_Nil)
next
  case (snoc d ds)
  then show ?case
    by (simp add: processDocs_snoc seq_inv_step processDoc_puts)
qed

lemma seq_inv_init: "seq_inv (meta_seq m) 0 (init_state store m ds)"
  by (simp add: seq_inv_def init_state_def)

lemma bulkDocs_seq_inv:
  "seq_inv (meta_seq m) (length req)
     \<lparr> oldDocs = Map.empty, results = [], seq_counter = seq_after (bulkDocs E store m op req),
       puts = written (bulkDocs E store m op req), halted = False \<rparr>"
proof (cases "parseDocs E (new_edits op) req")
  case (Inl e)
  then show ?thesis by (simp add: bulkDocs_def seq_inv_def)
next
  case (Inr ds)
  show ?thesis
  proof (cases "preProcessAttachments E ds")
    case None
    with Inr show ?thesis by (simp add: bulkDocs_def seq_inv_def)
  next
    case (Some ds')
    have "seq_inv (meta_seq m) (length ds')
            (processDocs E op (revsLimit m) ds' (init_state store m ds'))"
      by (rule processDocs_seq_inv) (rule seq_inv_init)
    moreover have "length ds' = length req"
      using Inr Some by (simp add: parseDocs_length preProcessAttachments_length)
    ultimately show ?thesis
      using Inr Some by (simp add: bulkDocs_def Let_def seq_inv_def)
  qed
qed


subsection \<open>The slots of the results\<close>

lemma finish_cases:
  "halted (finish E op st i d r) \<or>
   (\<exists>e. finish E op st i d r = st\<lparr> results := js_set (results st) i (Err e) \<rparr> \<and>
        (e = createError REV_CONFLICT None \<or> r = Inl e)) \<or>
   (\<exists>w. results (finish E op st i d r) = js_set (results st) i (Ok (doc_id w) (doc_rev w)) \<and>
        puts (finish E op st i d r) = puts st @ [(i, w)])"
proof (cases "new_edits op \<and> rootIsMissing d = None")
  case True
  then show ?thesis by (simp add: finish_def)
next
  case nthrow: False
  show ?thesis
  proof (cases "if new_edits op \<and> rootIsMissing d = Some True
               then Inl (createError REV_CONFLICT None) else r")
    case (Inl e)
    then have "e = createError REV_CONFLICT None \<or> r = Inl e"
      by (auto split: if_splits)
    moreover have "finish E op st i d r = st\<lparr> results := js_set (results st) i (Err e) \<rparr>"
      using nthrow Inl by (auto simp: finish_def)
    ultimately show ?thesis by blast
  next
    case (Inr nd)
    show ?thesis
    proof (cases "write_doc E (seq_counter st) nd")
      case None
      with nthrow Inr show ?thesis by (auto simp: finish_def)
    next
      case (Some w)
      with nthrow Inr
      have "results (finish E op st i d r) = js_set (results st) i (Ok (doc_id w) (doc_rev w))"
        and "puts (finish E op st i d r) = puts st @ [(i, w)]"
        by (auto simp: finish_def)
      then show ?thesis by blast
    qed
  qed
qed

lemma finish_results:
  assumes "results st0 = results st" "puts st0 = puts st"
    and "\<And>e. r = Inl e \<Longrightarrow> known_error e"
  shows "step_results i False st (finish E op st0 i d r)"
proof -
  let ?f = "finish E op st0 i d r"
  from finish_cases[of E op st0 i d r]
  consider (h) "halted ?f"
    | (e) e where "?f = st0\<lparr> results := js_set (results st0) i (Err e) \<rparr>"
        "e = createError REV_CONFLICT None \<or> r = Inl e"
    | (w) w where "results ?f = js_set (results st0) i (Ok (doc_id w) (doc_rev w))"
        "puts ?f = puts st0 @ [(i, w)]"
    by blast
  then show ?thesis
  proof cases
    case h
    then show ?thesis by (simp add: step_results_def)
  next
    case e
    then have "known_error e" using assms(3) by (auto simp: known_error_def)
    then have "slot_for (puts ?f) i (Err e)" by (simp add: slot_for_def)
    moreover have "results ?f = js_set (results st) i (Err e)" "set (puts st) \<subseteq> set (puts ?f)"
      using e(1) assms by simp_all
    ultimately show ?thesis unfolding step_results_def by blast
  next
    case w
    then have "slot_for (puts ?f) i (Ok (doc_id w) (doc_rev w))" by (force simp: slot_for_def)
    moreover have "results ?f = js_set (results st) i (Ok (doc_id w) (doc_rev w))"
        "set (puts st) \<subseteq> set (puts ?f)"
      using w assms by auto
    ultimately show ?thesis unfolding step_results_def by blast
  qed
qed

lemma update_merge_error:
  "update_merge E op limit d oldDoc = (Inl e, d', oldDoc') \<Longrightarrow> e = createError REV_CONFLICT None"
  by (auto simp: update_merge_def Let_def split: if_splits)

lemma update_error:
  "update E op limit d oldDoc = Updated (Inl e) d' oldDoc' \<Longrightarrow> e = createError REV_CONFLICT None"
  by (auto simp: update_def Let_def split: if_splits option.splits sum.splits prod.splits
           dest: update_merge_error)

lemma update_Skipped_iff:
  "update E op limit d oldDoc = Skipped \<longleftrightarrow> revs oldDoc (doc_rev d) \<noteq> None"
  by (auto simp: update_def Let_def split: if_splits option.splits sum.splits prod.splits)

lemma processDoc_results:
  assumes "\<not> halted st"
  shows "step_results i (resub_now st d) st (processDoc E op limit st (i, d))"
proof (cases "oldDocs st (doc_id d)")
  case None
  with assms show ?thesis
    by (auto simp: processDoc_def Let_def resub_now_def known_error_def intro!: finish_results)
next
  case (Some oldDoc)
  show ?thesis
  proof (cases "update E op limit d oldDoc")
    case Skipped
    with assms Some show ?thesis
      using update_Skipped_iff[of E op limit d oldDoc]
      by (simp add: processDoc_def step_results_def resub_now_def)
  next
    case Threw
    with assms Some show ?thesis by (simp add: processDoc_def step_results_def)
  next
    case (Updated r d' oldDoc')
    then have "\<not> resub_now st d"
      using update_Skipped_iff[of E op limit d oldDoc] Some by (simp add: resub_now_def)
    moreover have "\<And>e. r = Inl e \<Longrightarrow> known_error e"
      using Updated update_error by (auto simp: known_error_def)
    ultimately show ?thesis
      using assms Some Updated by (simp add: processDoc_def finish_results)
  qed
qed

lemma resubmits_snoc_old:
  "j < length ds \<Longrightarrow> resubmits E op limit (ds @ [d]) st0 j = resubmits E op limit ds st0 j"
  by (simp add: resubmits_def nth_append)

lemma resubmits_snoc_new:
  "resubmits E op limit (ds @ [d]) st0 (length ds) = resub_now (processDocs E op limit ds st0) d"
  by (simp add: resubmits_def)

lemma slot_for_mono: "slot_for ps j v \<Longrightarrow> set ps \<subseteq> set ps' \<Longrightarrow> slot_for ps' j v"
  by (cases v) (auto simp: slot_for_def)


lemma results_inv_step:
  assumes inv: "results_inv E op limit ds st0 st"
    and step: "step_results (length ds) (resub_now st d) st st'"
    and nh: "\<not> halted st'"
    and st: "st = processDocs E op limit ds st0"
  shows "results_inv E op limit (ds @ [d]) st0 st'"
proof -
  let ?k = "length ds"
  have len: "length (results st) \<le> ?k"
    and old: "\<And>j. j < ?k \<Longrightarrow> (js_get (results st) j = None) = resubmits E op limit ds st0 j"
    and oldv: "\<And>j v. j < ?k \<Longrightarrow> js_get (results st) j = Some v \<Longrightarrow> slot_for (puts st) j v"
    using inv by (auto simp: results_inv_def)
  from step nh consider
      (skip) "resub_now st d" "results st' = results st" "puts st' = puts st"
    | (set) v where "\<not> resub_now st d" "results st' = js_set (results st) ?k v"
        "slot_for (puts st') ?k v" "set (puts st) \<subseteq> set (puts st')"
    by (auto simp: step_results_def)
  then show ?thesis
  proof cases
    case skip
    have "length (results st') \<le> length (ds @ [d])" using len skip by simp
    moreover have "(js_get (results st') j = None) = resubmits E op limit (ds @ [d]) st0 j"
      if "j < length (ds @ [d])" for j
    proof (cases "j < ?k")
      case True
      then show ?thesis using old skip by (simp add: resubmits_snoc_old)
    next
      case False
      with that have "j = ?k" by simp
      then show ?thesis using skip len st by (simp add: resubmits_snoc_new js_get_beyond)
    qed
    moreover have "slot_for (puts st') j v"
      if "j < length (ds @ [d])" "js_get (results st') j = Some v" for j v
    proof (cases "j < ?k")
      case True
      then have "slot_for (puts st) j v" using oldv that skip by simp
      then show ?thesis using skip by simp
    next
      case False
      with that have "j = ?k" by simp
      then show ?thesis using that skip len by (simp add: js_get_beyond)
    qed
    ultimately show ?thesis unfolding results_inv_def by blast
  next
    case set
    have "length (results st') \<le> length (ds @ [d])" using len set by (simp add: length_js_set)
    moreover have "(js_get (results st') j = None) = resubmits E op limit (ds @ [d]) st0 j"
      if "j < length (ds @ [d])" for j
    proof (cases "j < ?k")
      case True
      then show ?thesis using old set by (simp add: resubmits_snoc_old js_get_js_set)
    next
      case False
      with that have "j = ?k" by simp
      then show ?thesis using set st by (simp add: resubmits_snoc_new js_get_js_set)
    qed
    moreover have "slot_for (puts st') j v"
      if "j < length (ds @ [d])" "js_get (results st') j = Some v" for j v
    proof (cases "j < ?k")
      case True
      then have "slot_for (puts st) j v" using oldv that set by (simp add: js_get_js_set)
      then show ?thesis using set by (auto intro: slot_for_mono)
    next
      case False
      with that have "j = ?k" by simp
      then show ?thesis using that set by (simp add: js_get_js_set)
    qed
    ultimately show ?thesis unfolding results_inv_def by blast
  qed
qed

lemma processDocs_results_inv:
  assumes "results st0 = []"
  shows "\<not> halted (processDocs E op limit ds st0) \<Longrightarrow>
         results_inv E op limit ds st0 (processDocs E op limit ds st0)"
proof (induction ds rule: rev_induct)
  case Nil
  then show ?case using assms by (simp add: processDocs_Nil results_inv_def)
next
  case (snoc d ds)
  let ?st = "processDocs E op limit ds st0"
  let ?st' = "processDoc E op limit ?st (length ds, d)"
  from snoc.prems have nh': "\<not> halted ?st'" by (simp add: processDocs_snoc)
  then have nh: "\<not> halted ?st" using processDoc_halted[of ?st E op limit "(length ds, d)"] by auto
  have "results_inv E op limit (ds @ [d]) st0 ?st'"
    using snoc.IH[OF nh] processDoc_results[OF nh] nh' by (rule results_inv_step) simp
  then show ?case by (simp add: processDocs_snoc)
qed

lemma results_inv_full:
  assumes "results_inv E op limit ds st0 st"
    and "\<forall>j < length ds. \<not> resubmits E op limit ds st0 j"
  shows "length (results st) = length ds"
proof (cases "ds = []")
  case True
  with assms(1) show ?thesis by (simp add: results_inv_def)
next
  case False
  let ?j = "length ds - 1"
  from False have j: "?j < length ds" by simp
  with assms have "js_get (results st) ?j \<noteq> None" by (simp add: results_inv_def)
  then have "?j < length (results st)" by (auto simp: js_get_def split: if_splits)
  moreover have "length (results st) \<le> length ds" using assms(1) by (simp add: results_inv_def)
  ultimately show ?thesis by simp
qed

subsection \<open>Parsing, conflicts, stemming\<close>

lemma parseDocs_first_error:
  "i < length req \<Longrightarrow> parseDoc E (req ! i) ne = Inl e \<Longrightarrow>
   (\<forall>j < i. \<exists>p. parseDoc E (req ! j) ne = Inr p) \<Longrightarrow> parseDocs E ne req = Inl e"
proof (induction req arbitrary: i)
  case Nil
  then show ?case by simp
next
  case (Cons r rs)
  show ?case
  proof (cases i)
    case 0
    with Cons.prems show ?thesis by simp
  next
    case (Suc k)
    from Cons.prems(3) Suc obtain p where p: "parseDoc E r ne = Inr p" by fastforce
    have "parseDocs E ne rs = Inl e"
    proof (rule Cons.IH[of k])
      show "k < length rs" using Cons.prems(1) Suc by simp
      show "parseDoc E (rs ! k) ne = Inl e" using Cons.prems(2) Suc by simp
      show "\<forall>j<k. \<exists>p. parseDoc E (rs ! j) ne = Inr p"
        using Cons.prems(3) Suc by (metis Suc_less_eq nth_Cons_Suc)
    qed
    with p show ?thesis by simp
  qed
qed

lemma rootIsMissing_root_status:
  "rootIsMissing d = (case root_status (rev_tree d) of None \<Rightarrow> None | Some s \<Rightarrow> Some (s = ''missing''))"
  by (simp add: rootIsMissing_def root_status_def split: option.splits)

lemma finish_conflict:
  "new_edits op \<Longrightarrow> root_status (rev_tree d) = Some ''missing'' \<Longrightarrow>
   finish E op st i d r = st\<lparr> results := js_set (results st) i (Err (createError REV_CONFLICT None)) \<rparr>"
  by (simp add: finish_def rootIsMissing_root_status)

lemma delete_revs_None: "r \<in> set l \<Longrightarrow> foldl (\<lambda>m r. m(r := None)) rs l r = None"
  by (induction l arbitrary: rs rule: rev_induct) auto

lemma delete_revs_other: "r \<notin> set l \<Longrightarrow> foldl (\<lambda>m r. m(r := None)) rs l r = rs r"
  by (induction l arbitrary: rs rule: rev_induct) auto

lemma delete_revs_apply:
  "delete_revs st rs r = (case st of None \<Rightarrow> rs r | Some l \<Rightarrow> if r \<in> set l then None else rs r)"
  by (simp add: delete_revs_def delete_revs_None delete_revs_other split: option.splits)

lemma shape_mark: "shape (mark limit n) = shape n"
  by (induction n) auto

lemma stem_shape: "tree_shape (fst (stem limit t)) = tree_shape t"
  by (simp add: stem_def tree_shape_def shape_mark)

lemma pruned_missing:
  "r \<in> set (pruned limit p n) \<Longrightarrow> (r, ''missing'') \<in> set (statuses p (mark limit n))"
  by (induction n arbitrary: p) (auto split: if_splits)

lemma stem_missing:
  "r \<in> set (snd (stem limit t)) \<Longrightarrow> (r, ''missing'') \<in> set (tree_statuses (fst (stem limit t)))"
  by (auto simp: stem_def tree_statuses_def dest: pruned_missing)

lemma stem_tree_xy:
  "stem 1 tree_xy = ([\<lparr> pos = 1, ids = Node ''x'' ''missing'' [Node ''y'' ''available'' []] \<rparr>], [''1-x''])"
  by code_simp


section \<open>The conflict policy of update\<close>

lemma convertDocFormat_deleted: "deleted (convertDocFormat p) = None"
  by (simp add: convertDocFormat_def Let_def)

lemma inConflict_converted:
  "inConflict op (convertDocFormat p) oldDoc mg =
     (new_edits op \<and>
       ((\<not> truthy (deleted oldDoc) \<and> m_conflicts mg \<noteq> ''new_leaf'') \<or>
        (truthy (deleted oldDoc) \<and> m_conflicts mg = ''new_branch'')))"
  by (auto simp: inConflict_def convertDocFormat_deleted truthy_def)

text \<open>
  C1. In new_edits mode, an update of an existing document whose incoming revision is
  not yet recorded is to be rejected with a conflict error when both the old winning
  leaf and the new revision are deletions. \<^verbatim>\<open>update\<close> reads the deletion flag of the
  new revision from \<^verbatim>\<open>doc.deleted\<close>, a property that \<^verbatim>\<open>convertDocFormat\<close> never
  sets (the flag is \<^verbatim>\<open>doc.revs[doc.rev].deleted\<close>), so the first case of the policy
  never applies (\<open>inConflict_converted\<close>). At the input below the stored record
  \<open>rec_deleted\<close> has the deleted winning leaf \<open>2-y\<close>, the incoming revision
  \<open>3-z\<close> is a deletion that extends that leaf (\<^verbatim>\<open>new_leaf\<close>), and \<^verbatim>\<open>update\<close>
  accepts it: the document is written and its result is \<^verbatim>\<open>{ok: true}\<close>.
\<close>

theorem update_accepts_deletion_of_deleted_leaf:
  "new_edits edits
   \<and> truthy (deleted rec_deleted)
   \<and> md_deleted (p_metadata (parsed_doc ''a'' ''3-z'' (child_path 2 ''y'' ''z'') True (plain_body [])))
   \<and> revs rec_deleted ''3-z'' = None
   \<and> m_conflicts (merge ex_deps (rev_tree rec_deleted) (Some (child_path 2 ''y'' ''z'')) 1000) = ''new_leaf''
   \<and> accepted (update ex_deps edits 1000
        (convertDocFormat (parsed_doc ''a'' ''3-z'' (child_path 2 ''y'' ''z'') True (plain_body [])))
        rec_deleted)
   \<and> events (bulkDocs ex_deps store_deleted ex_meta edits [raw_doc ''a'' (Some ''2-y'') ''_deleted''])
       = [OpenTransaction, Notify ''db'', CallbackResults [Some (Ok ''a'' ''3-z'')]]"
  by (simp add: model_defs ex_defs accepted_def)

section \<open>The results of a batch\<close>

text \<open>
  C2 (as stated, refuted). A batch with a single document that re-submits the recorded
  revision \<open>1-x\<close> of document \<open>a\<close> parses, and the callback receives an empty
  results array: the length is 0, not 1.
\<close>

theorem bulkDocs_resubmission_leaves_no_slot:
  "parseDoc ex_deps (raw_doc ''a'' (Some ''1-x'') ''{}'') False
     = Inr (parsed_doc ''a'' ''1-x'' (leaf_path 1 ''x'') False (plain_body ''{}''))
   \<and> length [raw_doc ''a'' (Some ''1-x'') ''{}''] = 1
   \<and> events (bulkDocs ex_deps store_a ex_meta replication [raw_doc ''a'' (Some ''1-x'') ''{}''])
       = [OpenTransaction, Notify ''db'', CallbackResults []]"
  by (simp add: model_defs ex_defs)

text \<open>
  C2 (amended). For every batch whose documents all parse, whose attachments
  pre-process and whose processing throws no exception, the callback receives a
  results array that is no longer than the batch; the slot of the i-th input is empty
  (a hole, or beyond the end of the array) exactly when that input re-submits a
  revision already recorded for its document, and otherwise holds a per-document error
  or the success value of the record written for that input. When no input is such a
  re-submission, the array has the length of the batch.
\<close>

theorem bulkDocs_results_slots:
  assumes "parseDocs E (new_edits op) req = Inr ds"
    and "preProcessAttachments E ds = Some ds'"
    and "\<not> halted (processDocs E op (revsLimit m) ds' (init_state store m ds'))"
  shows "\<exists>rs. events (bulkDocs E store m op req)
               = [OpenTransaction, Notify (meta_name m), CallbackResults rs]
     \<and> length rs \<le> length req
     \<and> (\<forall>j < length req.
           (js_get rs j = None) = resubmits E op (revsLimit m) ds' (init_state store m ds') j
         \<and> (\<forall>v. js_get rs j = Some v \<longrightarrow> slot_for (written (bulkDocs E store m op req)) j v))
     \<and> ((\<forall>j < length req. \<not> resubmits E op (revsLimit m) ds' (init_state store m ds') j)
          \<longrightarrow> length rs = length req)"
proof -
  let ?init = "init_state store m ds'"
  let ?fin = "processDocs E op (revsLimit m) ds' ?init"
  have len: "length ds' = length req"
    using assms by (simp add: parseDocs_length preProcessAttachments_length)
  have inv: "results_inv E op (revsLimit m) ds' ?init ?fin"
    using assms(3) by (intro processDocs_results_inv) (simp add: init_state_def)
  have ev: "events (bulkDocs E store m op req)
              = [OpenTransaction, Notify (meta_name m), CallbackResults (results ?fin)]"
    and wr: "written (bulkDocs E store m op req) = puts ?fin"
    using assms by (simp_all add: bulkDocs_def Let_def)
  have "length (results ?fin) \<le> length req"
    using inv len by (simp add: results_inv_def)
  moreover have "\<forall>j < length req.
           (js_get (results ?fin) j = None) = resubmits E op (revsLimit m) ds' ?init j
         \<and> (\<forall>v. js_get (results ?fin) j = Some v \<longrightarrow> slot_for (written (bulkDocs E store m op req)) j v)"
    using inv len wr by (simp add: results_inv_def)
  moreover have "(\<forall>j < length req. \<not> resubmits E op (revsLimit m) ds' ?init j)
          \<longrightarrow> length (results ?fin) = length req"
    using results_inv_full[OF inv] len by simp
  ultimately show ?thesis using ev by blast
qed


text \<open>
  The amended statement at the batch \<open>resubmission_batch\<close>: the first input is a
  re-submission and its slot is a hole, the second is written and its slot holds the
  success value.
\<close>

theorem bulkDocs_results_slots_witness:
  "events (bulkDocs ex_deps store_a ex_meta replication resubmission_batch)
     = [OpenTransaction, Notify ''db'', CallbackResults [None, Some (Ok ''b'' ''1-y'')]]
   \<and> resubmits ex_deps replication (revsLimit ex_meta) resubmission_docs
        (init_state store_a ex_meta resubmission_docs) 0
   \<and> \<not> resubmits ex_deps replication (revsLimit ex_meta) resubmission_docs
        (init_state store_a ex_meta resubmission_docs) 1
   \<and> slot_for (written (bulkDocs ex_deps store_a ex_meta replication resubmission_batch))
        1 (Ok ''b'' ''1-y'')"
proof -
  let ?store = "store_a"
  let ?init = "init_state ?store ex_meta resubmission_docs"
  have p: "parseDocs ex_deps (new_edits replication) resubmission_batch = Inr resubmission_docs"
    by (simp add: ex_defs)
  have a: "preProcessAttachments ex_deps resubmission_docs = Some resubmission_docs"
    by (simp add: model_defs ex_defs)
  have h: "\<not> halted (processDocs ex_deps replication (revsLimit ex_meta) resubmission_docs ?init)"
    by (simp add: model_defs ex_defs)
  have ev: "events (bulkDocs ex_deps ?store ex_meta replication resubmission_batch)
              = [OpenTransaction, Notify ''db'', CallbackResults [None, Some (Ok ''b'' ''1-y'')]]"
    by (simp add: model_defs ex_defs)
  from bulkDocs_results_slots[OF p a h] ev
  have all: "\<forall>j < length resubmission_batch.
      (js_get [None, Some (Ok ''b'' ''1-y'')] j = None)
        = resubmits ex_deps replication (revsLimit ex_meta) resubmission_docs ?init j
      \<and> (\<forall>v. js_get [None, Some (Ok ''b'' ''1-y'')] j = Some v \<longrightarrow>
            slot_for (written (bulkDocs ex_deps ?store ex_meta replication resubmission_batch)) j v)"
    by simp
  have "resubmits ex_deps replication (revsLimit ex_meta) resubmission_docs ?init 0"
    using all[rule_format, of 0] by (simp add: js_get_def resubmission_batch_def)
  moreover have "\<not> resubmits ex_deps replication (revsLimit ex_meta) resubmission_docs ?init 1"
    using all[rule_format, of 1] by (simp add: js_get_def resubmission_batch_def)
  moreover have "slot_for (written (bulkDocs ex_deps ?store ex_meta replication resubmission_batch))
                   1 (Ok ''b'' ''1-y'')"
    using all[rule_format, of 1] by (simp add: js_get_def resubmission_batch_def)
  ultimately show ?thesis using ev by simp
qed

section \<open>Parse errors\<close>

text \<open>
  C3 (as stated, refuted). The second document of the batch below has an id that the
  parser rejects. The call ends with that error as its only outcome, but the first
  thing it has done is to open the transaction.
\<close>

theorem bulkDocs_opens_transaction_before_parsing:
  "parseDoc ex_deps (raw_doc ''_bad'' None ''{}'') (new_edits replication)
     = Inl (PouchError (OTHER ''bad_request'') None)
   \<and> events (bulkDocs ex_deps store_a ex_meta replication
               [raw_doc ''b'' (Some ''1-y'') ''{}'', raw_doc ''_bad'' None ''{}''])
       = [OpenTransaction, CallbackError (PouchError (OTHER ''bad_request'') None)]"
  by (simp add: model_defs ex_defs)

text \<open>
  C3 (amended). If the parsing of a raw input document fails (and that of the documents
  before it does not), the call ends at once with that parse error as the only outcome
  of the callback: no results are delivered, nothing is written, the sequence counter
  is not touched and the change listener is not notified. The transaction has been
  opened before the first document is parsed.
\<close>

theorem bulkDocs_parse_error:
  assumes "i < length req"
    and "parseDoc E (req ! i) (new_edits op) = Inl e"
    and "\<forall>j < i. \<exists>p. parseDoc E (req ! j) (new_edits op) = Inr p"
  shows "bulkDocs E store m op req =
           \<lparr> events = [OpenTransaction, CallbackError e], written = [], seq_after = meta_seq m \<rparr>"
  using parseDocs_first_error[OF assms] by (simp add: bulkDocs_def)

text \<open>The amended statement at a batch whose only document is rejected by the parser.\<close>

theorem bulkDocs_parse_error_witness:
  "bulkDocs ex_deps empty_store ex_meta edits [raw_doc ''_bad'' None ''{}''] =
     \<lparr> events = [OpenTransaction, CallbackError (PouchError (OTHER ''bad_request'') None)],
       written = [], seq_after = 5 \<rparr>"
proof -
  have "parseDoc ex_deps ([raw_doc ''_bad'' None ''{}''] ! 0) (new_edits edits)
          = Inl (PouchError (OTHER ''bad_request'') None)"
    by (simp add: ex_defs)
  from bulkDocs_parse_error[OF _ this, of empty_store ex_meta] show ?thesis
    by (simp add: ex_meta_def)
qed


section \<open>Attachments that do not decode\<close>

lemma preProcessAttachment_decode_error_dropped:
  assumes "\<not> stub a" and "att_data a = Some (DataString s)" and "atob E s = None"
    and "binStringToBlobOrBuffer E (parseBase64 E s) (content_type a) = Some blob"
    and "md5 E (parseBase64 E s) = Some h"
  shows "preProcessAttachment E a =
           Some (a\<lparr> att_data := Some (DataBlob blob), att_length := None, digest := Some (''md5-'' @ h) \<rparr>)"
  using assms by (simp add: preProcessAttachment_def parseBase64_def bin_length_def Let_def)

lemma finish_results_known:
  assumes "\<And>e. r = Inl e \<Longrightarrow> known_error e"
    and "\<forall>j e. js_get (results st) j = Some (Err e) \<longrightarrow> known_error e"
  shows "\<forall>j e. js_get (results (finish E op st i d r)) j = Some (Err e) \<longrightarrow> known_error e"
  using assms
  by (auto simp: finish_def js_get_js_set known_error_def split: sum.splits option.splits if_splits)

lemma processDoc_results_known:
  assumes "\<forall>j e. js_get (results st) j = Some (Err e) \<longrightarrow> known_error e"
  shows "\<forall>j e. js_get (results (processDoc E op limit st (i, d))) j = Some (Err e) \<longrightarrow> known_error e"
proof (cases "halted st")
  case True
  with assms show ?thesis by (simp add: processDoc_halted)
next
  case nh: False
  show ?thesis
  proof (cases "oldDocs st (doc_id d)")
    case None
    with nh obtain d1 r1 where f: "processDoc E op limit st (i, d) = finish E op st i d1 r1"
      and r1: "\<And>e. r1 = Inl e \<Longrightarrow> known_error e"
      by (cases "was_delete op") (auto simp: processDoc_def Let_def known_error_def)
    from finish_results_known[of r1 st E op i d1, OF r1 assms] f show ?thesis by simp
  next
    case (Some oldDoc)
    show ?thesis
    proof (cases "update E op limit d oldDoc")
      case Skipped
      with nh Some assms show ?thesis by (simp add: processDoc_def)
    next
      case Threw
      with nh Some assms show ?thesis by (simp add: processDoc_def)
    next
      case (Updated r d' oldDoc')
      then have "\<And>e. r = Inl e \<Longrightarrow> known_error e"
        using update_error by (auto simp: known_error_def)
      then have "\<forall>j e. js_get (results (finish E op (st\<lparr> oldDocs := (oldDocs st)(doc_id d \<mapsto> oldDoc') \<rparr>) i d' r)) j
                    = Some (Err e) \<longrightarrow> known_error e"
        using assms by (intro finish_results_known) simp_all
      with nh Some Updated show ?thesis by (simp add: processDoc_def)
    qed
  qed
qed

lemma processDocs_results_known:
  assumes "results st = []"
  shows "\<forall>j e. js_get (results (processDocs E op limit ds st)) j = Some (Err e) \<longrightarrow> known_error e"
proof (induction ds rule: rev_induct)
  case Nil
  then show ?case using assms by (simp add: processDocs_Nil js_get_def)
next
  case (snoc d ds)
  then show ?case by (simp only: processDocs_snoc) (rule processDoc_results_known)
qed

lemma bulkDocs_never_reports_bad_argument:
  assumes "CallbackResults rs \<in> set (events (bulkDocs E store m op req))"
  shows "js_get rs j \<noteq> Some (Err (createError BAD_ARG r))"
proof
  assume slot: "js_get rs j = Some (Err (createError BAD_ARG r))"
  have "known_error (createError BAD_ARG r)"
  proof (cases "parseDocs E (new_edits op) req")
    case (Inl e)
    with assms show ?thesis by (simp add: bulkDocs_def)
  next
    case (Inr ds)
    show ?thesis
    proof (cases "preProcessAttachments E ds")
      case None
      with Inr assms slot show ?thesis by (simp add: bulkDocs_def js_get_def)
    next
      case (Some ds')
      with Inr assms
      have "rs = results (processDocs E op (revsLimit m) ds' (init_state store m ds'))"
        by (simp add: bulkDocs_def Let_def)
      with slot processDocs_results_known[of "init_state store m ds'" E op "revsLimit m" ds']
      show ?thesis by (simp add: init_state_def)
    qed
  qed
  then show False by (simp add: known_error_def createError_def)
qed

text \<open>
  C4. An attachment whose payload is not valid base64 is to fail with an
  invalid-argument error that becomes the result of its document.
  \<^verbatim>\<open>parseBase64\<close> builds that error, but \<^verbatim>\<open>preProcessAttachment\<close> never looks at
  what \<^verbatim>\<open>parseBase64\<close> returns: the object goes on to \<^verbatim>\<open>binStringToBlobOrBuffer\<close>
  and \<^verbatim>\<open>md5\<close> as if it were the decoded string
  (\<open>preProcessAttachment_decode_error_dropped\<close>), and no slot of the results ever
  holds an invalid-argument error (\<open>bulkDocs_never_reports_bad_argument\<close>). At the
  input below the payload \<^verbatim>\<open>%%%\<close> of the attachment does not decode. When
  \<^verbatim>\<open>md5\<close> digests the error object, the document is written and its result is
  \<^verbatim>\<open>{ok: true}\<close>; when \<^verbatim>\<open>md5\<close> rejects it, no document of the batch is processed
  and the callback receives an empty results array.
\<close>

theorem bulkDocs_writes_undecodable_attachment:
  "atob ex_deps ''%%%'' = None
   \<and> parseBase64 ex_deps ''%%%''
       = BinError (createError BAD_ARG (Some ''Attachment is not a valid base64 string''))
   \<and> b_attachments raw_with_attachment = Some [(''f.txt'', bad_attachment)]
   \<and> att_data bad_attachment = Some (DataString ''%%%'')
   \<and> events (bulkDocs ex_deps empty_store ex_meta edits [raw_with_attachment])
       = [OpenTransaction, Notify ''db'', CallbackResults [Some (Ok ''b'' ''1-n'')]]
   \<and> events (bulkDocs strict_md5_deps empty_store ex_meta edits [raw_with_attachment])
       = [OpenTransaction, Notify ''db'', CallbackResults []]"
  by (simp add: model_defs ex_defs)

section \<open>Sequence numbers\<close>

text \<open>
  C5. Within one call, the records handed to \<^verbatim>\<open>put\<close> are written in the order of
  their inputs, and the \<^verbatim>\<open>seq\<close> of the k-th of them is the sequence counter of the
  metadata as it was before the call plus k: each is obtained by incrementing the
  counter, the values are strictly increasing in input order, and none is used twice.
  The counter is a natural number here; the increment of JavaScript is exact below
  \<open>2^53\<close>.
\<close>

theorem bulkDocs_seq_strictly_increasing:
  "map (doc_seq \<circ> snd) (written (bulkDocs E store m op req))
     = map Some [Suc (meta_seq m) ..< Suc (meta_seq m + length (written (bulkDocs E store m op req)))]
   \<and> seq_after (bulkDocs E store m op req) = meta_seq m + length (written (bulkDocs E store m op req))
   \<and> sorted_wrt (<) (map fst (written (bulkDocs E store m op req)))
   \<and> (\<forall>x \<in> set (written (bulkDocs E store m op req)). fst x < length req)"
  using bulkDocs_seq_inv[of m req E store op] by (simp add: seq_inv_def comp_def)

text \<open>Two new documents, written with the counter at 5: they get the values 6 and 7.\<close>

theorem bulkDocs_seq_strictly_increasing_witness:
  "map (doc_seq \<circ> snd) (written (bulkDocs ex_deps empty_store ex_meta edits
                                   [raw_doc ''a'' None ''{}'', raw_doc ''b'' None ''{}'']))
     = [Some 6, Some 7]
   \<and> map fst (written (bulkDocs ex_deps empty_store ex_meta edits
                         [raw_doc ''a'' None ''{}'', raw_doc ''b'' None ''{}''])) = [0, 1]
   \<and> seq_after (bulkDocs ex_deps empty_store ex_meta edits
                  [raw_doc ''a'' None ''{}'', raw_doc ''b'' None ''{}'']) = 7"
proof -
  let ?out = "bulkDocs ex_deps empty_store ex_meta edits [raw_doc ''a'' None ''{}'', raw_doc ''b'' None ''{}'']"
  have ix: "map fst (written ?out) = [0, 1]"
    by (simp add: model_defs ex_defs)
  then have "length (written ?out) = 2"
    by (metis length_map length_Cons list.size(3) numeral_2_eq_2)
  with bulkDocs_seq_strictly_increasing[of ex_deps empty_store ex_meta edits
         "[raw_doc ''a'' None ''{}'', raw_doc ''b'' None ''{}'']"]
  have "map (doc_seq \<circ> snd) (written ?out) = map Some [6 ..< 8]" and "seq_after ?out = 7"
    by (simp_all add: ex_meta_def)
  moreover have "[6 ..< 8] = [6, 7::nat]" by (simp add: upt_rec)
  ultimately show ?thesis using ix by simp
qed


section \<open>The record that write persists\<close>

lemma write_doc_rev_tree: "write_doc E s d = Some w \<Longrightarrow> rev_tree w = rev_tree d"
  by (auto simp: write_doc_def Let_def split: option.splits)

lemma stemmed_doc_is_written: "\<exists>w. write_doc ex_deps 5 stemmed_doc = Some w"
proof -
  have "case write_doc ex_deps 5 stemmed_doc of None \<Rightarrow> False | Some w \<Rightarrow> True"
    by code_simp
  then show ?thesis by (simp split: option.splits)
qed

lemma stemmed_doc_stemmedRevs: "stemmedRevs stemmed_doc = Some [''1-x'']"
  by code_simp

lemma stemmed_doc_winner: "calculateWinningRev ex_deps (rev_tree stemmed_doc) = ''2-y''"
  by code_simp

lemma stemmed_doc_body:
  "revs stemmed_doc ''2-y'' = Some \<lparr> data = body_with_attachment, rev_deleted = False \<rparr>"
  by code_simp

text \<open>
  C6. For every accepted document, the record that \<^verbatim>\<open>write\<close> hands to \<^verbatim>\<open>put\<close>
  has as \<^verbatim>\<open>rev\<close> the winning revision selected from its revision tree; as
  \<^verbatim>\<open>data\<close> the body that \<^verbatim>\<open>revs\<close> holds for that revision (one object, in which
  \<^verbatim>\<open>write\<close> has replaced the attachments by stubs, \<open>stub_body\<close>); and as
  \<^verbatim>\<open>deleted\<close> 1 if that revision is a deletion and 0 otherwise. The persisted
  \<^verbatim>\<open>revs\<close> still has that entry, with that same body, unless the merge has reported
  the winning revision itself as stemmed.
\<close>

theorem write_doc_winner:
  assumes "write_doc E seq d = Some w"
  shows "doc_rev w = calculateWinningRev E (rev_tree w)
     \<and> (\<exists>ri. revs d (doc_rev w) = Some ri
            \<and> doc_data w = Some (stub_body (data ri))
            \<and> deleted w = Some (if rev_deleted ri then 1 else 0)
            \<and> ((\<forall>l. stemmedRevs d = Some l \<longrightarrow> doc_rev w \<notin> set l) \<longrightarrow>
                 revs w (doc_rev w) = Some \<lparr> data = stub_body (data ri), rev_deleted = rev_deleted ri \<rparr>))"
proof -
  let ?win = "calculateWinningRev E (rev_tree d)"
  from assms obtain ri where ri: "revs d ?win = Some ri"
    by (auto simp: write_doc_def Let_def split: option.splits)
  have rv: "doc_rev w = ?win" and tr: "rev_tree w = rev_tree d"
    and dt: "doc_data w = Some (stub_body (data ri))"
    and dl: "deleted w = Some (if rev_deleted ri then 1 else 0)"
    using assms ri by (auto simp: write_doc_def Let_def)
  have "revs w ?win = Some \<lparr> data = stub_body (data ri), rev_deleted = rev_deleted ri \<rparr>"
    if "\<forall>l. stemmedRevs d = Some l \<longrightarrow> ?win \<notin> set l"
  proof -
    from that ri have "delete_revs (stemmedRevs d) (revs d) ?win = Some ri"
      by (simp add: delete_revs_apply split: option.splits)
    with assms ri show ?thesis by (auto simp: write_doc_def Let_def)
  qed
  with rv tr dt dl ri show ?thesis by simp
qed

text \<open>
  The record written for \<open>stemmed_doc\<close>: the winning revision is \<open>2-y\<close>, which is
  not stemmed; \<^verbatim>\<open>data\<close> and the entry of \<^verbatim>\<open>revs\<close> are the body of \<open>2-y\<close> with
  its attachment as a stub.
\<close>

theorem write_doc_winner_witness:
  "(case write_doc ex_deps 5 stemmed_doc of
      None \<Rightarrow> False
    | Some w \<Rightarrow>
        doc_rev w = ''2-y''
        \<and> calculateWinningRev ex_deps (rev_tree w) = ''2-y''
        \<and> revs stemmed_doc ''2-y'' = Some \<lparr> data = body_with_attachment, rev_deleted = False \<rparr>
        \<and> doc_data w = Some (stub_body body_with_attachment)
        \<and> deleted w = Some 0
        \<and> revs w ''2-y'' = Some \<lparr> data = stub_body body_with_attachment, rev_deleted = False \<rparr>)"
proof -
  from stemmed_doc_is_written obtain w where W: "write_doc ex_deps 5 stemmed_doc = Some w" ..
  have t: "calculateWinningRev ex_deps (rev_tree w) = ''2-y''"
    using write_doc_rev_tree[OF W] stemmed_doc_winner by simp
  from write_doc_winner[OF W]
  have rv: "doc_rev w = ''2-y''" using t by simp
  from write_doc_winner[OF W, unfolded rv, THEN conjunct2]
  obtain ri where a: "revs stemmed_doc ''2-y'' = Some ri"
      "doc_data w = Some (stub_body (data ri))"
      "deleted w = Some (if rev_deleted ri then 1 else 0)"
      "(\<forall>l. stemmedRevs stemmed_doc = Some l \<longrightarrow> ''2-y'' \<notin> set l) \<longrightarrow>
         revs w ''2-y'' = Some \<lparr> data = stub_body (data ri), rev_deleted = rev_deleted ri \<rparr>"
    by blast
  from a(1) have ri: "ri = \<lparr> data = body_with_attachment, rev_deleted = False \<rparr>"
    by (simp add: stemmed_doc_body)
  have d: "doc_data w = Some (stub_body body_with_attachment)"
    "deleted w = Some 0"
    "revs w ''2-y'' = Some \<lparr> data = stub_body body_with_attachment, rev_deleted = False \<rparr>"
    using a(2,3,4) by (simp_all add: ri stemmed_doc_stemmedRevs)
  show ?thesis by (simp add: W t rv d stemmed_doc_body)
qed

text \<open>
  C8. For every accepted write, each revision id that the merge reports as stemmed has
  no entry in \<^verbatim>\<open>revs\<close> of the persisted record, the persisted record has no
  \<^verbatim>\<open>stemmedRevs\<close> property, and \<^verbatim>\<open>write\<close> persists the revision tree as the merge
  returned it: with the stemming of the merger as the specification describes it
  (\<open>stem\<close>), the tree has the shape of the tree before the pruning, and every
  stemmed revision is a node of it with the status \<^verbatim>\<open>missing\<close>.
\<close>

theorem write_doc_stemmed:
  assumes "rev_tree d = fst (stem limit t)"
    and "stemmedRevs d = Some (snd (stem limit t))"
    and "write_doc E seq d = Some w"
  shows "(\<forall>r \<in> set (snd (stem limit t)). revs w r = None)
     \<and> stemmedRevs w = None
     \<and> rev_tree w = fst (stem limit t)
     \<and> tree_shape (rev_tree w) = tree_shape t
     \<and> (\<forall>r \<in> set (snd (stem limit t)). (r, ''missing'') \<in> set (tree_statuses (rev_tree w)))"
proof -
  from assms(3) obtain ri where ri: "revs d (calculateWinningRev E (rev_tree d)) = Some ri"
    by (auto simp: write_doc_def Let_def split: option.splits)
  have tree: "rev_tree w = fst (stem limit t)" and st: "stemmedRevs w = None"
    using assms by (auto simp: write_doc_def Let_def split: option.splits)
  have rv: "revs w r = None" if "r \<in> set (snd (stem limit t))" for r
    using assms(2,3) that ri
    by (auto simp: write_doc_def Let_def delete_revs_apply split: option.splits if_splits)
  show ?thesis
    using tree st rv by (simp add: stem_shape stem_missing)
qed

text \<open>
  The tree \<open>1-x\<close>, \<open>2-y\<close> stemmed to one generation: \<open>1-x\<close> is reported, its
  body is gone from the persisted \<^verbatim>\<open>revs\<close>, and its node is still the root of the
  persisted tree, marked \<^verbatim>\<open>missing\<close>.
\<close>

theorem write_doc_stemmed_witness:
  "snd (stem 1 tree_xy) = [''1-x'']
   \<and> revs stemmed_doc ''1-x'' = Some \<lparr> data = plain_body ''{}'', rev_deleted = False \<rparr>
   \<and> (case write_doc ex_deps 5 stemmed_doc of
        None \<Rightarrow> False
      | Some w \<Rightarrow>
          revs w ''1-x'' = None
          \<and> stemmedRevs w = None
          \<and> rev_tree w = [\<lparr> pos = 1, ids = Node ''x'' ''missing'' [Node ''y'' ''available'' []] \<rparr>]
          \<and> tree_shape (rev_tree w) = tree_shape tree_xy
          \<and> (''1-x'', ''missing'') \<in> set (tree_statuses (rev_tree w)))"
proof -
  from stemmed_doc_is_written obtain w where W: "write_doc ex_deps 5 stemmed_doc = Some w" ..
  have h1: "rev_tree stemmed_doc = fst (stem 1 tree_xy)"
    and h2: "stemmedRevs stemmed_doc = Some (snd (stem 1 tree_xy))"
    by (simp_all add: stemmed_doc_def)
  have r: "revs stemmed_doc ''1-x'' = Some \<lparr> data = plain_body ''{}'', rev_deleted = False \<rparr>"
    by code_simp
  have s1: "snd (stem 1 tree_xy) = [''1-x'']"
    by (simp only: stem_tree_xy snd_conv)
  note c = write_doc_stemmed[OF h1 h2 W, unfolded stem_tree_xy fst_conv snd_conv]
  have a1: "revs w ''1-x'' = None"
    using c[THEN conjunct1] by simp
  have a2: "stemmedRevs w = None"
    and a3: "rev_tree w = [\<lparr> pos = 1, ids = Node ''x'' ''missing'' [Node ''y'' ''available'' []] \<rparr>]"
    and a4: "tree_shape (rev_tree w) = tree_shape tree_xy"
    using c by blast+
  have a5: "(''1-x'', ''missing'') \<in> set (tree_statuses (rev_tree w))"
    using c[THEN conjunct2, THEN conjunct2, THEN conjunct2, THEN conjunct2] by simp
  show ?thesis
    unfolding W by (simp only: option.case) (intro conjI s1 r a1 a2 a3 a4 a5)
qed

section \<open>Deletions of unknown documents, and revisions of unknown ancestry\<close>




text \<open>
  C9 (as stated, refuted). The store has the deleted document \<open>rec_replicated\<close>,
  whose tree has the root \<open>1-a\<close> with the status \<^verbatim>\<open>missing\<close>. A new edit without
  a revision arrives in new_edits mode; \<^verbatim>\<open>update\<close> reattaches it to the deleted
  leaf \<open>2-b\<close> and merges it into a new object. The tree after the merge has the
  first root \<open>1-a\<close>, still \<^verbatim>\<open>missing\<close>, but \<^verbatim>\<open>rootIsMissing\<close> reads the
  document as it was parsed: the edit is written and its result is \<^verbatim>\<open>{ok: true}\<close>.
\<close>

theorem bulkDocs_reattached_edit_with_missing_root_is_written:
  "new_edits edits
   \<and> map (root_status \<circ> rev_tree \<circ> snd)
         (written (bulkDocs ex_deps store_replicated ex_meta edits [raw_doc ''d'' None ''{}'']))
       = [Some ''missing'']
   \<and> events (bulkDocs ex_deps store_replicated ex_meta edits [raw_doc ''d'' None ''{}''])
       = [OpenTransaction, Notify ''db'', CallbackResults [Some (Ok ''d'' ''3-m'')]]"
  by (simp add: model_defs ex_defs root_status_def)

text \<open>
  C9 (amended). In new_edits mode, every document that does not re-submit a recorded
  revision, and on which \<^verbatim>\<open>processDocs\<close> throws no exception, receives a conflict
  error in its slot (and nothing is written for it) when the first root of the tree
  that the document itself holds at the check has the status \<^verbatim>\<open>missing\<close>. That tree
  (\<open>checked_tree\<close>) is the merged tree when no prior record exists and the document would
  otherwise be created, and on the ordinary path of \<^verbatim>\<open>update\<close>; it is the tree as
  parsed on the \<^verbatim>\<open>was_delete\<close> path and when \<^verbatim>\<open>update\<close> reattaches the edit to a
  deleted leaf.
\<close>

theorem processDoc_missing_root_conflict:
  assumes "\<not> halted st" and "new_edits op"
    and "\<not> resub_now st d"
    and "\<not> halted (processDoc E op limit st (i, d))"
    and "root_status (checked_tree E op limit st d) = Some ''missing''"
  shows "results (processDoc E op limit st (i, d)) = js_set (results st) i (Err (createError REV_CONFLICT None))
       \<and> puts (processDoc E op limit st (i, d)) = puts st
       \<and> seq_counter (processDoc E op limit st (i, d)) = seq_counter st"
proof (cases "oldDocs st (doc_id d)")
  case None
  with assms show ?thesis
    by (auto simp: processDoc_def checked_tree_def Let_def finish_conflict)
next
  case (Some oldDoc)
  with assms(3) have nr: "revs oldDoc (doc_rev d) = None" by (simp add: resub_now_def)
  show ?thesis
  proof (cases "truthy (deleted oldDoc) \<and> \<not> truthy (deleted d) \<and> new_edits op \<and> isRoot (doc_rev d)")
    case True
    with assms Some nr show ?thesis
      by (auto simp: processDoc_def checked_tree_def update_def Let_def finish_conflict
               split: option.splits sum.splits prod.splits)
  next
    case False
    with assms Some nr show ?thesis
      by (auto simp: processDoc_def checked_tree_def update_def update_merge_def Let_def finish_conflict
               split: option.splits sum.splits prod.splits)
  qed
qed

text \<open>
  A new document \<open>c\<close> submitted with the revision \<open>1-x\<close>, which the store has
  never seen: no prior record exists, and the result is a conflict error.
\<close>

theorem processDoc_missing_root_conflict_witness:
  "oldDocs (init_state empty_store ex_meta [])
      (doc_id (convertDocFormat (parsed_doc ''c'' ''2-n'' (child_path 1 ''x'' ''n'') False (plain_body ''{}'')))) = None
   \<and> root_status (checked_tree ex_deps edits 1000 (init_state empty_store ex_meta [])
        (convertDocFormat (parsed_doc ''c'' ''2-n'' (child_path 1 ''x'' ''n'') False (plain_body ''{}''))))
       = Some ''missing''
   \<and> results (processDoc ex_deps edits 1000 (init_state empty_store ex_meta [])
        (0, convertDocFormat (parsed_doc ''c'' ''2-n'' (child_path 1 ''x'' ''n'') False (plain_body ''{}''))))
       = [Some (Err (createError REV_CONFLICT None))]"
proof -
  let ?st = "init_state empty_store ex_meta []"
  let ?d = "convertDocFormat (parsed_doc ''c'' ''2-n'' (child_path 1 ''x'' ''n'') False (plain_body ''{}''))"
  have o: "oldDocs ?st (doc_id ?d) = None"
    by (simp add: init_state_def fetchExistingDocs_def)
  have h: "\<not> halted ?st" "new_edits edits" "\<not> resub_now ?st ?d"
    by (simp_all add: init_state_def fetchExistingDocs_def resub_now_def edits_def)
  have h4: "\<not> halted (processDoc ex_deps edits 1000 ?st (0, ?d))"
    by (simp add: model_defs ex_defs)
  have h5: "root_status (checked_tree ex_deps edits 1000 ?st ?d) = Some ''missing''"
    by (simp add: model_defs ex_defs checked_tree_def root_status_def)
  from processDoc_missing_root_conflict[OF h h4 h5]
  have "results (processDoc ex_deps edits 1000 ?st (0, ?d)) = [Some (Err (createError REV_CONFLICT None))]"
    by (simp add: js_set_def init_state_def)
  with o h5 show ?thesis by (intro conjI)
qed

section \<open>Properties of getAttachment\<close>



end
